theory Spec2Isabelle
  imports Main
begin

section \<open>Values and exceptions\<close>

text \<open>
  The data handled by \<^verbatim>\<open>httprunner/testcase.py\<close> and \<^verbatim>\<open>httprunner/loader.py\<close> is
  what the JSON, YAML and CSV decoders produce: \<^verbatim>\<open>None\<close>, booleans, integers, strings,
  sequences and mappings. A mapping is an association list in insertion order whose keys
  are values again. Floating point numbers and byte strings are outside the model, and a
  string is a list of 8-bit characters, so the model speaks about ASCII text.
\<close>

datatype pyval =
    PNone
  | PBool bool
  | PInt int
  | PStr string
  | PList "pyval list"
  | PTuple "pyval list"
  | PDict "(pyval \<times> pyval) list"

text \<open>
  The exceptions of \<^verbatim>\<open>httprunner.exceptions\<close> that the two files raise or catch, each
  with its message, and the built-in exceptions of the Python operations they use.
  \<open>OtherError\<close> stands for whatever else a collaborator raises.
\<close>

datatype error =
    FileNotFound string
  | FileFormatError string
  | ParamsError string
  | ApiNotFound string
  | SuiteNotFound string
  | FunctionNotFound string
  | JSONDecodeError
  | AssertionError
  | NameError
  | TypeError
  | KeyError
  | IndexError
  | AttributeError
  | OtherError string

definition ebind :: "error + 'a \<Rightarrow> ('a \<Rightarrow> error + 'b) \<Rightarrow> error + 'b" where
  "ebind m f = (case m of Inl e \<Rightarrow> Inl e | Inr x \<Rightarrow> f x)"

subsection \<open>Python's equality, truth value and hashing\<close>

text \<open>
  \<^verbatim>\<open>==\<close> on values: a boolean equals the integer 0 or 1, sequences compare element by
  element, and two mappings are equal when they have the same number of items and every
  item of the first is an item of the second, whatever the order.
\<close>

fun py_eq :: "pyval \<Rightarrow> pyval \<Rightarrow> bool" where
  "py_eq PNone PNone = True"
| "py_eq (PBool a) (PBool b) = (a = b)"
| "py_eq (PBool a) (PInt i) = (i = (if a then 1 else 0))"
| "py_eq (PInt i) (PBool a) = (i = (if a then 1 else 0))"
| "py_eq (PInt i) (PInt j) = (i = j)"
| "py_eq (PStr s) (PStr t) = (s = t)"
| "py_eq (PList xs) (PList ys) = list_all2 py_eq xs ys"
| "py_eq (PTuple xs) (PTuple ys) = list_all2 py_eq xs ys"
| "py_eq (PDict d) (PDict d') =
     (length d = length d' \<and>
      list_all (\<lambda>(k, v). list_ex (\<lambda>(k', v'). py_eq k k' \<and> py_eq v v') d') d)"
| "py_eq _ _ = False"

text \<open>\<^verbatim>\<open>bool(x)\<close>, as \<^verbatim>\<open>if not content\<close> and \<^verbatim>\<open>if args_mapping\<close> use it.\<close>

fun py_truthy :: "pyval \<Rightarrow> bool" where
  "py_truthy PNone = False"
| "py_truthy (PBool b) = b"
| "py_truthy (PInt i) = (i \<noteq> 0)"
| "py_truthy (PStr s) = (s \<noteq> [])"
| "py_truthy (PList xs) = (xs \<noteq> [])"
| "py_truthy (PTuple xs) = (xs \<noteq> [])"
| "py_truthy (PDict d) = (d \<noteq> [])"

text \<open>Only hashable values can be keys of a mapping: lists and mappings are not.\<close>

fun hashable :: "pyval \<Rightarrow> bool" where
  "hashable (PList xs) = False"
| "hashable (PDict d) = False"
| "hashable (PTuple xs) = list_all hashable xs"
| "hashable _ = True"

subsection \<open>Mappings\<close>

type_synonym pydict = "(pyval \<times> pyval) list"

text \<open>\<^verbatim>\<open>k in d\<close> and \<^verbatim>\<open>d.get(k)\<close>: the item whose key equals \<open>k\<close>.\<close>

fun dict_get :: "pydict \<Rightarrow> pyval \<Rightarrow> pyval option" where
  "dict_get [] k = None"
| "dict_get ((k', v) # d) k = (if py_eq k' k then Some v else dict_get d k)"

definition dict_contains :: "pydict \<Rightarrow> pyval \<Rightarrow> bool" where
  "dict_contains d k = (dict_get d k \<noteq> None)"

text \<open>
  \<^verbatim>\<open>d[k] = v\<close> for a hashable key: an existing key keeps its place and gets the new
  value, a new key is added at the end.
\<close>

fun dict_set :: "pydict \<Rightarrow> pyval \<Rightarrow> pyval \<Rightarrow> pydict" where
  "dict_set [] k v = [(k, v)]"
| "dict_set ((k', v') # d) k v =
     (if py_eq k' k then (k', v) # d else (k', v') # dict_set d k v)"

text \<open>\<^verbatim>\<open>d[k] = v\<close> for any key: an unhashable key raises \<^verbatim>\<open>TypeError\<close>.\<close>

definition dict_setitem :: "pydict \<Rightarrow> pyval \<Rightarrow> pyval \<Rightarrow> error + pydict" where
  "dict_setitem d k v = (if hashable k then Inr (dict_set d k v) else Inl TypeError)"

text \<open>\<^verbatim>\<open>d.update(e)\<close> for a mapping \<open>e\<close>: its items are stored one by one, in order.\<close>

definition dict_update :: "pydict \<Rightarrow> pydict \<Rightarrow> pydict" where
  "dict_update d e = fold (\<lambda>(k, v) acc. dict_set acc k v) e d"


subsection \<open>Sequences\<close>

text \<open>
  Iterating over a value (\<^verbatim>\<open>for x in v\<close>, \<^verbatim>\<open>*v\<close>, \<^verbatim>\<open>list.extend(v)\<close>): a mapping gives
  its keys, a string its characters, and \<^verbatim>\<open>None\<close>, a boolean or a number raise
  \<^verbatim>\<open>TypeError\<close>.
\<close>

fun py_iter :: "pyval \<Rightarrow> error + pyval list" where
  "py_iter (PList xs) = Inr xs"
| "py_iter (PTuple xs) = Inr xs"
| "py_iter (PDict d) = Inr (map fst d)"
| "py_iter (PStr s) = Inr (map (\<lambda>c. PStr [c]) s)"
| "py_iter _ = Inl TypeError"

fun py_len :: "pyval \<Rightarrow> error + nat" where
  "py_len (PList xs) = Inr (length xs)"
| "py_len (PTuple xs) = Inr (length xs)"
| "py_len (PDict d) = Inr (length d)"
| "py_len (PStr s) = Inr (length s)"
| "py_len _ = Inl TypeError"

text \<open>
  \<^verbatim>\<open>v[i]\<close> for the index \<open>i\<close> that \<^verbatim>\<open>enumerate\<close> supplies (never negative): a position of
  a sequence or string (\<^verbatim>\<open>IndexError\<close> past the end), a key of a mapping
  (\<^verbatim>\<open>KeyError\<close> when absent).
\<close>

fun py_index :: "pyval \<Rightarrow> nat \<Rightarrow> error + pyval" where
  "py_index (PList xs) i = (if i < length xs then Inr (xs ! i) else Inl IndexError)"
| "py_index (PTuple xs) i = (if i < length xs then Inr (xs ! i) else Inl IndexError)"
| "py_index (PStr s) i = (if i < length s then Inr (PStr [s ! i]) else Inl IndexError)"
| "py_index (PDict d) i =
     (case dict_get d (PInt (int i)) of Some v \<Rightarrow> Inr v | None \<Rightarrow> Inl KeyError)"
| "py_index _ i = Inl TypeError"

text \<open>
  \<^verbatim>\<open>v[k]\<close> for a string key \<open>k\<close>: only a mapping can hold it; a sequence or a string
  refuses a string index with \<^verbatim>\<open>TypeError\<close>, as the other values do.
\<close>

fun py_getitem_str :: "pyval \<Rightarrow> string \<Rightarrow> error + pyval" where
  "py_getitem_str (PDict d) k =
     (case dict_get d (PStr k) of Some v \<Rightarrow> Inr v | None \<Rightarrow> Inl KeyError)"
| "py_getitem_str _ k = Inl TypeError"

text \<open>
  \<^verbatim>\<open>v.get(k)\<close> and \<^verbatim>\<open>v.get(k, default)\<close> for a string key: a method of mappings only, so
  any other receiver raises \<^verbatim>\<open>AttributeError\<close>.
\<close>

fun py_get_str :: "pyval \<Rightarrow> string \<Rightarrow> pyval \<Rightarrow> error + pyval" where
  "py_get_str (PDict d) k dflt =
     (case dict_get d (PStr k) of Some v \<Rightarrow> Inr v | None \<Rightarrow> Inr dflt)"
| "py_get_str _ k dflt = Inl AttributeError"

section \<open>Strings\<close>

text \<open>
  \<^verbatim>\<open>str.strip()\<close> removes white space at both ends. The ASCII characters that
  \<^verbatim>\<open>str.isspace\<close> accepts are tab, line feed, vertical tab, form feed, carriage return,
  the four separators 28 to 31 and the space.
\<close>

definition is_space :: "char \<Rightarrow> bool" where
  "is_space c = (of_char c \<in> {9, 10, 11, 12, 13, 28, 29, 30, 31, 32 :: nat})"

definition strip :: "string \<Rightarrow> string" where
  "strip s = rev (dropWhile is_space (rev (dropWhile is_space s)))"

text \<open>
  \<^verbatim>\<open>s.replace(old, new, 1)\<close>: the leftmost occurrence of \<open>old\<close> is replaced and the rest of
  the string is left as it is; without an occurrence the string is returned unchanged.
\<close>

fun replace_first :: "string \<Rightarrow> string \<Rightarrow> string \<Rightarrow> string" where
  "replace_first old new [] = (if old = [] then new else [])"
| "replace_first old new (c # cs) =
     (if take (length old) (c # cs) = old then new @ drop (length old) (c # cs)
      else c # replace_first old new cs)"

text \<open>\<^verbatim>\<open>s.split(sep)\<close> for a one-character separator: the empty string gives one empty field.\<close>

fun split_on :: "char \<Rightarrow> string \<Rightarrow> string list" where
  "split_on sep [] = [[]]"
| "split_on sep (c # cs) =
     (if c = sep then [] # split_on sep cs
      else (case split_on sep cs of
              [] \<Rightarrow> [[c]]
            | f # fs \<Rightarrow> (c # f) # fs))"

text \<open>\<^verbatim>\<open>s.lower()\<close> on ASCII text.\<close>

definition lower_char :: "char \<Rightarrow> char" where
  "lower_char c =
     (let n = (of_char c :: nat) in if 65 \<le> n \<and> n \<le> 90 then char_of (n + 32) else c)"

definition lower :: "string \<Rightarrow> string" where
  "lower s = map lower_char s"

text \<open>\<^verbatim>\<open>s.endswith(suffix)\<close>.\<close>

definition endswith :: "string \<Rightarrow> string \<Rightarrow> bool" where
  "endswith s suffix = (length suffix \<le> length s \<and> drop (length s - length suffix) s = suffix)"

subsection \<open>\<^verbatim>\<open>str()\<close> and \<^verbatim>\<open>repr()\<close>\<close>

definition digit_char :: "nat \<Rightarrow> char" where
  "digit_char d = char_of (48 + d)"

fun str_nat :: "nat \<Rightarrow> string" where
  "str_nat n = (if n < 10 then [digit_char n] else str_nat (n div 10) @ [digit_char (n mod 10)])"

definition str_int :: "int \<Rightarrow> string" where
  "str_int i = (if i < 0 then CHR ''-'' # str_nat (nat (- i)) else str_nat (nat i))"

definition hex_char :: "nat \<Rightarrow> char" where
  "hex_char d = (if d < 10 then char_of (48 + d) else char_of (87 + d))"

text \<open>
  \<^verbatim>\<open>repr\<close> of a string: single quotes, unless the text has a single quote and no double
  quote; the backslash, the delimiter, and the control characters are escaped.
\<close>

definition repr_char :: "char \<Rightarrow> char \<Rightarrow> string" where
  "repr_char q c =
     (let n = (of_char c :: nat) in
      if c = CHR 0x5C then [CHR 0x5C, CHR 0x5C]
      else if c = q then [CHR 0x5C, q]
      else if n = 10 then [CHR 0x5C, CHR ''n'']
      else if n = 13 then [CHR 0x5C, CHR ''r'']
      else if n = 9 then [CHR 0x5C, CHR ''t'']
      else if n < 32 \<or> n = 127 then [CHR 0x5C, CHR ''x'', hex_char (n div 16), hex_char (n mod 16)]
      else [c])"

definition repr_str :: "string \<Rightarrow> string" where
  "repr_str s =
     (let q = (if CHR 0x27 \<in> set s \<and> CHR 0x22 \<notin> set s then CHR 0x22 else CHR 0x27)
      in [q] @ concat (map (repr_char q) s) @ [q])"

fun join_with :: "string \<Rightarrow> string list \<Rightarrow> string" where
  "join_with sep [] = []"
| "join_with sep [x] = x"
| "join_with sep (x # y # ys) = x @ sep @ join_with sep (y # ys)"

fun py_repr :: "pyval \<Rightarrow> string" where
  "py_repr PNone = ''None''"
| "py_repr (PBool b) = (if b then ''True'' else ''False'')"
| "py_repr (PInt i) = str_int i"
| "py_repr (PStr s) = repr_str s"
| "py_repr (PList xs) = ''['' @ join_with '', '' (map py_repr xs) @ '']''"
| "py_repr (PTuple xs) =
     (case xs of
        [x] \<Rightarrow> ''('' @ py_repr x @ '',)''
      | _ \<Rightarrow> ''('' @ join_with '', '' (map py_repr xs) @ '')'')"
| "py_repr (PDict d) =
     ''{'' @ join_with '', '' (map (\<lambda>(k, v). py_repr k @ '': '' @ py_repr v) d) @ ''}''"

text \<open>\<^verbatim>\<open>str(v)\<close>, also \<^verbatim>\<open>"{}".format(v)\<close>: a string is itself, everything else its \<^verbatim>\<open>repr\<close>.\<close>

definition py_str :: "pyval \<Rightarrow> string" where
  "py_str v = (case v of PStr s \<Rightarrow> s | _ \<Rightarrow> py_repr v)"

section \<open>\<^verbatim>\<open>testcase.py\<close>: function expressions in a string\<close>

text \<open>
  \<^verbatim>\<open>function_regexp = r"\$\{([\w_]+\([\$\w\.\-_ =,]*\))\}"\<close>.
  The class \<^verbatim>\<open>[\w_]\<close> holds the letters, the digits and the underscore; the class of the
  argument text adds the dollar sign, the dot, the minus sign, the space, the equals sign
  and the comma.
\<close>

definition is_word_char :: "char \<Rightarrow> bool" where
  "is_word_char c =
     (c \<in> set ''abcdefghijklmnopqrstuvwxyzABCDEFGHIJKLMNOPQRSTUVWXYZ0123456789_'')"

definition is_arg_char :: "char \<Rightarrow> bool" where
  "is_arg_char c = (is_word_char c \<or> c \<in> set ''$.- =,'')"

text \<open>
  A match of \<^verbatim>\<open>function_regexp\<close> at the start of a string: the captured group and the
  text after the match. Both repetitions are greedy, and neither can give a character back:
  the character that has to follow the name is an opening parenthesis, which is not a
  word character, and the one that has to follow the arguments is a closing parenthesis,
  which is not in their class. So the longest run is the only candidate.
\<close>

definition match_function :: "string \<Rightarrow> (string \<times> string) option" where
  "match_function s =
     (case s of
        c1 # c2 # t \<Rightarrow>
          if c1 = CHR ''$'' \<and> c2 = CHR ''{'' then
            (let name = takeWhile is_word_char t; t1 = dropWhile is_word_char t in
             if name = [] then None
             else (case t1 of
                     p # t2 \<Rightarrow>
                       if p = CHR ''('' then
                         (let args = takeWhile is_arg_char t2; t3 = dropWhile is_arg_char t2 in
                          (case t3 of
                             q # r # rest \<Rightarrow>
                               if q = CHR '')'' \<and> r = CHR ''}''
                               then Some (name @ ''('' @ args @ '')'', rest)
                               else None
                           | _ \<Rightarrow> None))
                       else None
                   | [] \<Rightarrow> None))
          else None
      | _ \<Rightarrow> None)"

lemma match_function_shorter:
  "match_function s = Some (g, rest) \<Longrightarrow> length rest < length s"
proof -
  assume m: "match_function s = Some (g, rest)"
  have dw: "\<And>P (xs :: string) ys. dropWhile P xs = ys \<Longrightarrow> length ys \<le> length xs"
    by (metis length_dropWhile_le)
  from m show ?thesis
    unfolding match_function_def Let_def
    by (auto split: list.splits if_splits dest!: dw)
qed

text \<open>
  \<^verbatim>\<open>re.findall(function_regexp, content)\<close>: the groups of the matches that do not overlap,
  scanning from the left; after a match the scan goes on behind it, otherwise one
  character further.
\<close>

function findall_functions :: "string \<Rightarrow> string list" where
  "findall_functions [] = []"
| "findall_functions (c # cs) =
     (case match_function (c # cs) of
        Some (g, rest) \<Rightarrow> g # findall_functions rest
      | None \<Rightarrow> findall_functions cs)"
  by pat_completeness auto
termination
  by (relation "measure length") (auto dest: match_function_shorter)

text \<open>
  \<^verbatim>\<open>extract_functions\<close> (lines 18 to 32): \<^verbatim>\<open>re.findall\<close> raises \<^verbatim>\<open>TypeError\<close> on anything
  but a string, and the function then returns the empty list.
\<close>

fun extract_functions :: "pyval \<Rightarrow> string list" where
  "extract_functions (PStr s) = findall_functions s"
| "extract_functions _ = []"

section \<open>The collaborators\<close>

text \<open>
  A Python callable, applied to positional arguments and keyword arguments.
\<close>

type_synonym pyfun = "pyval list \<Rightarrow> (string \<times> pyval) list \<Rightarrow> error + pyval"

text \<open>
  \<^verbatim>\<open>function_meta\<close>, the result of the call-signature parser: the mapping with the keys
  \<^verbatim>\<open>func_name\<close>, \<^verbatim>\<open>args\<close> and \<^verbatim>\<open>kwargs\<close>, as a record. \<open>meta_value\<close> is the same
  mapping as a value, which is how a definition block stores it.
\<close>

record function_meta =
  func_name :: string
  args :: "pyval list"
  kwargs :: "(string \<times> pyval) list"

definition kwargs_value :: "(string \<times> pyval) list \<Rightarrow> pyval" where
  "kwargs_value kw = PDict (map (\<lambda>(k, v). (PStr k, v)) kw)"

definition meta_value :: "function_meta \<Rightarrow> pyval" where
  "meta_value m =
     PDict [(PStr ''func_name'', PStr (func_name m)),
            (PStr ''args'', PList (args m)),
            (PStr ''kwargs'', kwargs_value (kwargs m))]"

text \<open>
  Everything the two files call and do not define is a field of the environment, so
  that each theorem holds for every implementation of it.

  From \<^verbatim>\<open>httprunner.parser\<close> and \<^verbatim>\<open>httprunner.utils\<close>, which are not among the sources:
  \<^item> \<open>parse_function\<close>: the call-signature parser, returning \<^verbatim>\<open>function_meta\<close> or
    raising;
  \<^item> \<open>extract_variables\<close>: the names of the \<^verbatim>\<open>$name\<close> references of a content;
  \<^item> \<open>search_conf_function\<close>, \<open>search_conf_variable\<close>:
    \<^verbatim>\<open>utils.search_conf_item(file_path, item_type, item_name)\<close> for the two item types;
  \<^item> \<open>substitute_variables_with_mapping\<close>: the rewriting of a block under a renaming;
  \<^item> \<open>override_block\<close>: \<^verbatim>\<open>utils._override_block(def_block, test_block)\<close>, which changes
    \<^verbatim>\<open>test_block\<close> in place; the field returns the changed block.

  From Python and the operating system:
  \<^item> \<open>eval_callable\<close>: \<^verbatim>\<open>eval(name)\<close> followed by \<^verbatim>\<open>callable\<close>; \<open>Inr None\<close> when the
    name is unknown (\<^verbatim>\<open>NameError\<close>, \<^verbatim>\<open>TypeError\<close>) or its value is not callable;
  \<^item> \<open>shuffle\<close>: \<^verbatim>\<open>random.shuffle\<close>, returning the permuted list;
  \<^item> \<open>isfile\<close>, \<open>isdir\<close>, \<open>path_exists\<close>, \<open>isabs\<close>, \<open>getcwd\<close>, \<open>path_join\<close>,
    \<open>dirname\<close>: \<^verbatim>\<open>os.path\<close> and \<^verbatim>\<open>os.getcwd\<close>;
  \<^item> \<open>walk\<close>: the pairs of directory path and file names that \<^verbatim>\<open>os.walk\<close> yields;
  \<^item> \<open>json_load\<close>, \<open>yaml_load\<close>, \<open>csv_rows\<close>: opening the file at a path and decoding
    it with \<^verbatim>\<open>json.load\<close>, \<^verbatim>\<open>yaml.load\<close> and \<^verbatim>\<open>csv.DictReader\<close>;
  \<^item> \<open>set_iter\<close>: the order in which \<^verbatim>\<open>set(paths)\<close> is iterated.

  The calls of \<^verbatim>\<open>httprunner.logger\<close> write log lines and are left out.
\<close>

record env =
  parse_function :: "pyval \<Rightarrow> error + function_meta"
  extract_variables :: "pyval \<Rightarrow> string list"
  search_conf_function :: "string \<Rightarrow> string \<Rightarrow> error + pyfun"
  search_conf_variable :: "string \<Rightarrow> string \<Rightarrow> error + pyval"
  substitute_variables_with_mapping :: "pyval \<Rightarrow> pydict \<Rightarrow> error + pyval"
  override_block :: "pyval \<Rightarrow> pyval \<Rightarrow> error + pyval"
  eval_callable :: "string \<Rightarrow> error + pyfun option"
  shuffle :: "pyval \<Rightarrow> error + pyval"
  isfile :: "string \<Rightarrow> bool"
  isdir :: "string \<Rightarrow> bool"
  path_exists :: "string \<Rightarrow> bool"
  isabs :: "string \<Rightarrow> bool"
  getcwd :: "string"
  path_join :: "string \<Rightarrow> string \<Rightarrow> string"
  dirname :: "string \<Rightarrow> string"
  walk :: "string \<Rightarrow> (string \<times> string list) list"
  json_load :: "string \<Rightarrow> error + pyval"
  yaml_load :: "string \<Rightarrow> error + pyval"
  csv_rows :: "string \<Rightarrow> error + pyval list"
  set_iter :: "string list \<Rightarrow> string list"

section \<open>\<^verbatim>\<open>loader.py\<close>: the file loader\<close>

text \<open>\<^verbatim>\<open>isinstance(content, (list, dict))\<close>.\<close>

fun is_list_or_dict :: "pyval \<Rightarrow> bool" where
  "is_list_or_dict (PList xs) = True"
| "is_list_or_dict (PDict d) = True"
| "is_list_or_dict _ = False"

fun is_dict :: "pyval \<Rightarrow> bool" where
  "is_dict (PDict d) = True"
| "is_dict _ = False"

text \<open>\<^verbatim>\<open>_check_format\<close> (lines 14 to 28).\<close>

definition check_format :: "string \<Rightarrow> pyval \<Rightarrow> error + unit" where
  "check_format file_path content =
     (if \<not> py_truthy content then
        Inl (FileFormatError (''Testcase file content is empty: '' @ file_path))
      else if \<not> is_list_or_dict content then
        Inl (FileFormatError (''Testcase file content format invalid: '' @ file_path))
      else Inr ())"

text \<open>\<^verbatim>\<open>load_yaml_file\<close> (lines 31 to 37).\<close>

definition load_yaml_file :: "env \<Rightarrow> string \<Rightarrow> error + pyval" where
  "load_yaml_file e yaml_file =
     ebind (yaml_load e yaml_file) (\<lambda>yaml_content.
     ebind (check_format yaml_file yaml_content) (\<lambda>_.
     Inr yaml_content))"

text \<open>
  \<^verbatim>\<open>load_json_file\<close> (lines 40 to 52): a \<^verbatim>\<open>JSONDecodeError\<close> becomes a
  \<^verbatim>\<open>FileFormatError\<close>, any other exception passes.
\<close>

definition load_json_file :: "env \<Rightarrow> string \<Rightarrow> error + pyval" where
  "load_json_file e json_file =
     (case json_load e json_file of
        Inl JSONDecodeError \<Rightarrow>
          Inl (FileFormatError (''JSONDecodeError: JSON file format error: '' @ json_file))
      | Inl err \<Rightarrow> Inl err
      | Inr json_content \<Rightarrow>
          ebind (check_format json_file json_content) (\<lambda>_. Inr json_content))"

text \<open>\<^verbatim>\<open>load_csv_file\<close> (lines 55 to 80): the rows are collected and returned.\<close>

definition load_csv_file :: "env \<Rightarrow> string \<Rightarrow> error + pyval" where
  "load_csv_file e csv_file =
     ebind (csv_rows e csv_file) (\<lambda>csv_content_list. Inr (PList csv_content_list))"

text \<open>
  \<^verbatim>\<open>os.path.splitext(p)[1]\<close> on POSIX paths: the extension starts at the last dot of the
  last path component, and dots that lead this component do not count.
\<close>

definition basename :: "string \<Rightarrow> string" where
  "basename p = rev (takeWhile (\<lambda>c. c \<noteq> CHR ''/'') (rev p))"

definition splitext_ext :: "string \<Rightarrow> string" where
  "splitext_ext p =
     (let b = dropWhile (\<lambda>c. c = CHR ''.'') (basename p) in
      if CHR ''.'' \<in> set b then CHR ''.'' # rev (takeWhile (\<lambda>c. c \<noteq> CHR ''.'') (rev b))
      else [])"

text \<open>\<^verbatim>\<open>load_file\<close> (lines 83 to 98).\<close>

definition load_file :: "env \<Rightarrow> string \<Rightarrow> error + pyval" where
  "load_file e file_path =
     (if \<not> isfile e file_path then Inl (FileNotFound (file_path @ '' does not exist.''))
      else
        (let file_suffix = lower (splitext_ext file_path) in
         if file_suffix = ''.json'' then load_json_file e file_path
         else if file_suffix \<in> set [''.yaml'', ''.yml''] then load_yaml_file e file_path
         else if file_suffix = ''.csv'' then load_csv_file e file_path
         else Inr (PList [])))"

section \<open>\<^verbatim>\<open>testcase.py\<close>: the expression evaluator\<close>

text \<open>
  The state of a \<^verbatim>\<open>TestcaseParser\<close> (lines 168 to 194): \<^verbatim>\<open>self.variables\<close>,
  \<^verbatim>\<open>self.functions\<close> and \<^verbatim>\<open>self.file_path\<close>.
\<close>

record testcase_parser =
  bound_variables :: "string \<rightharpoonup> pyval"
  bound_functions :: "string \<rightharpoonup> pyfun"
  file_path :: "string option"

text \<open>
  \<^verbatim>\<open>_get_bind_item\<close> (lines 196 to 221) for each of the two item types its callers pass.
  The message of the final \<^verbatim>\<open>ParamsError\<close> is
  \<^verbatim>\<open>"{} is not defined in bind {}s!".format(item_name, item_type)\<close>. The \<^verbatim>\<open>assert\<close> on the
  file path and the \<^verbatim>\<open>FunctionNotFound\<close> of the search are both turned into it; any
  other exception of the search passes.
\<close>

definition not_defined :: "string \<Rightarrow> string \<Rightarrow> error" where
  "not_defined item_type item_name =
     ParamsError (item_name @ '' is not defined in bind '' @ item_type @ ''s!'')"

fun caught_by_get_bind_item :: "error \<Rightarrow> bool" where
  "caught_by_get_bind_item AssertionError = True"
| "caught_by_get_bind_item (FunctionNotFound m) = True"
| "caught_by_get_bind_item _ = False"

definition get_bind_function :: "env \<Rightarrow> testcase_parser \<Rightarrow> string \<Rightarrow> error + pyfun" where
  "get_bind_function e p item_name =
     (case bound_functions p item_name of
        Some f \<Rightarrow> Inr f
      | None \<Rightarrow>
          (case eval_callable e item_name of
             Inl err \<Rightarrow> Inl err
           | Inr (Some f) \<Rightarrow> Inr f
           | Inr None \<Rightarrow>
               (case file_path p of
                  None \<Rightarrow> Inl (not_defined ''function'' item_name)
                | Some fp \<Rightarrow>
                    (case search_conf_function e fp item_name of
                       Inl err \<Rightarrow>
                         if caught_by_get_bind_item err
                         then Inl (not_defined ''function'' item_name) else Inl err
                     | Inr f \<Rightarrow> Inr f))))"

definition get_bind_variable :: "env \<Rightarrow> testcase_parser \<Rightarrow> string \<Rightarrow> error + pyval" where
  "get_bind_variable e p item_name =
     (case bound_variables p item_name of
        Some v \<Rightarrow> Inr v
      | None \<Rightarrow>
          (case file_path p of
             None \<Rightarrow> Inl (not_defined ''variable'' item_name)
           | Some fp \<Rightarrow>
               (case search_conf_variable e fp item_name of
                  Inl err \<Rightarrow>
                    if caught_by_get_bind_item err
                    then Inl (not_defined ''variable'' item_name) else Inl err
                | Inr v \<Rightarrow> Inr v)))"

text \<open>
  \<^verbatim>\<open>parameterize(self, csv_file_name, fetch_method="Sequential")\<close> (lines 229 to 239),
  called as \<^verbatim>\<open>self.parameterize(*args, **kwargs)\<close>. \<open>bind_parameterize\<close> is Python's
  binding of the arguments to the two parameters: too many positional arguments, an
  unknown keyword, a parameter given twice and a missing \<^verbatim>\<open>csv_file_name\<close> raise
  \<^verbatim>\<open>TypeError\<close>.
\<close>

definition bind_parameterize ::
  "pyval list \<Rightarrow> (string \<times> pyval) list \<Rightarrow> error + (pyval \<times> pyval)" where
  "bind_parameterize as kw =
     (if 2 < length as then Inl TypeError
      else if \<exists>k \<in> set (map fst kw). k \<notin> set [''csv_file_name'', ''fetch_method''] then Inl TypeError
      else if 1 \<le> length as \<and> map_of kw ''csv_file_name'' \<noteq> None then Inl TypeError
      else if 2 \<le> length as \<and> map_of kw ''fetch_method'' \<noteq> None then Inl TypeError
      else
        (case (if 1 \<le> length as then Some (as ! 0) else map_of kw ''csv_file_name'') of
           None \<Rightarrow> Inl TypeError
         | Some csv_file_name \<Rightarrow>
             Inr (csv_file_name,
                  (if 2 \<le> length as then as ! 1
                   else (case map_of kw ''fetch_method'' of
                           None \<Rightarrow> PStr ''Sequential''
                         | Some m \<Rightarrow> m)))))"

definition parameterize ::
  "env \<Rightarrow> testcase_parser \<Rightarrow> pyval list \<Rightarrow> (string \<times> pyval) list \<Rightarrow> error + pyval" where
  "parameterize e p as kw =
     ebind (bind_parameterize as kw) (\<lambda>(csv_file_name, fetch_method).
       (case file_path p of
          None \<Rightarrow> Inl TypeError
        | Some fp \<Rightarrow>
            (let parameter_file_path = path_join e (dirname e fp) (py_str csv_file_name) in
             ebind (load_file e parameter_file_path) (\<lambda>csv_content_list.
               (case fetch_method of
                  PStr m \<Rightarrow>
                    if lower m = ''random'' then shuffle e csv_content_list
                    else Inr csv_content_list
                | _ \<Rightarrow> Inl AttributeError)))))"

text \<open>
  \<^verbatim>\<open>f(*args, **kwargs)\<close>: \<^verbatim>\<open>*args\<close> iterates over the evaluated arguments, and
  \<^verbatim>\<open>**kwargs\<close> needs a mapping whose keys are strings.
\<close>

fun py_kwargs :: "pyval \<Rightarrow> error + (string \<times> pyval) list" where
  "py_kwargs (PDict d) =
     (if list_all (\<lambda>(k, v). case k of PStr s \<Rightarrow> True | _ \<Rightarrow> False) d
      then Inr (map (\<lambda>(k, v). (case k of PStr s \<Rightarrow> s | _ \<Rightarrow> [], v)) d)
      else Inl TypeError)"
| "py_kwargs _ = Inl TypeError"

text \<open>
  Lines 252 to 256 of \<^verbatim>\<open>_eval_content_functions\<close>: the call of the function named
  \<open>fname\<close> on the evaluated arguments.
\<close>

definition call_function ::
  "env \<Rightarrow> testcase_parser \<Rightarrow> string \<Rightarrow> pyval \<Rightarrow> pyval \<Rightarrow> error + pyval" where
  "call_function e p fname as kw =
     (if fname \<in> set [''parameterize'', ''P''] then
        ebind (py_iter as) (\<lambda>as'. ebind (py_kwargs kw) (\<lambda>kw'. parameterize e p as' kw'))
      else
        ebind (get_bind_function e p fname) (\<lambda>func.
        ebind (py_iter as) (\<lambda>as'. ebind (py_kwargs kw) (\<lambda>kw'. func as' kw'))))"

text \<open>
  Lines 258 to 267: when the content is exactly the expression, the value takes its
  place as it is; otherwise its \<^verbatim>\<open>str\<close> replaces the first occurrence of the expression
  text. Only a string has the method \<^verbatim>\<open>replace\<close>.
\<close>

definition splice_function :: "string \<Rightarrow> pyval \<Rightarrow> pyval \<Rightarrow> error + pyval" where
  "splice_function func_content content eval_value =
     (let expr = ''${'' @ func_content @ ''}'' in
      if py_eq (PStr expr) content then Inr eval_value
      else (case content of
              PStr s \<Rightarrow> Inr (PStr (replace_first expr (py_str eval_value) s))
            | _ \<Rightarrow> Inl AttributeError))"

text \<open>
  Lines 290 to 301 of \<^verbatim>\<open>_eval_content_variables\<close>, the same for a variable and its
  value.
\<close>

definition splice_variable :: "string \<Rightarrow> pyval \<Rightarrow> pyval \<Rightarrow> error + pyval" where
  "splice_variable variable_name content variable_value =
     (let expr = ''$'' @ variable_name in
      if py_eq (PStr expr) content then Inr variable_value
      else
        (let text_value = (case variable_value of PStr s \<Rightarrow> s | _ \<Rightarrow> py_str variable_value) in
         case content of
           PStr s \<Rightarrow> Inr (PStr (replace_first expr text_value s))
         | _ \<Rightarrow> Inl AttributeError))"

text \<open>The loop of \<^verbatim>\<open>_eval_content_variables\<close> (lines 287 to 303).\<close>

fun eval_variables_loop ::
  "env \<Rightarrow> testcase_parser \<Rightarrow> string list \<Rightarrow> pyval \<Rightarrow> error + pyval" where
  "eval_variables_loop e p [] content = Inr content"
| "eval_variables_loop e p (variable_name # rest) content =
     ebind (get_bind_variable e p variable_name) (\<lambda>variable_value.
     ebind (splice_variable variable_name content variable_value) (\<lambda>content'.
     eval_variables_loop e p rest content'))"

text \<open>\<^verbatim>\<open>_eval_content_variables\<close> (lines 271 to 303).\<close>

definition eval_content_variables :: "env \<Rightarrow> testcase_parser \<Rightarrow> pyval \<Rightarrow> error + pyval" where
  "eval_content_variables e p content =
     eval_variables_loop e p (extract_variables e content) content"

text \<open>
  \<^verbatim>\<open>eval_content_with_bindings\<close> calls itself on the items of a sequence or mapping and,
  through \<^verbatim>\<open>_eval_content_functions\<close>, on the arguments that the parser returns for a
  function expression. What the parser returns is not known here, so the recursion is
  bounded by a number of nested calls still allowed: \<open>None\<close> means that this number
  did not suffice, \<open>Some (Inl err)\<close> that the exception \<open>err\<close> was raised, and
  \<open>Some (Inr v)\<close> that \<open>v\<close> was returned.
\<close>

definition obind ::
  "(error + 'a) option \<Rightarrow> ('a \<Rightarrow> (error + 'b) option) \<Rightarrow> (error + 'b) option" where
  "obind m f = (case m of None \<Rightarrow> None | Some (Inl err) \<Rightarrow> Some (Inl err) | Some (Inr x) \<Rightarrow> f x)"

lemma obind_cong [fundef_cong]:
  "m = m' \<Longrightarrow> (\<And>x. m' = Some (Inr x) \<Longrightarrow> f x = f' x) \<Longrightarrow> obind m f = obind m' f'"
  by (auto simp: obind_def split: option.splits sum.splits)

text \<open>
  \<^item> \<open>eval_content_with_bindings\<close>: lines 305 to 363;
  \<^item> \<open>eval_items\<close>: the list comprehension of lines 337 to 340;
  \<^item> \<open>eval_dict_items\<close>: the loop of lines 343 to 349, with \<^verbatim>\<open>evaluated_data\<close> as the
    accumulator;
  \<^item> \<open>eval_content_functions\<close>: the loop of \<^verbatim>\<open>_eval_content_functions\<close> (lines 243 to
    269) over \<^verbatim>\<open>functions_list\<close>, with \<^verbatim>\<open>content\<close> as the accumulator.
\<close>

function eval_content_with_bindings ::
      "env \<Rightarrow> testcase_parser \<Rightarrow> nat \<Rightarrow> pyval \<Rightarrow> (error + pyval) option"
  and eval_items ::
      "env \<Rightarrow> testcase_parser \<Rightarrow> nat \<Rightarrow> pyval list \<Rightarrow> (error + pyval list) option"
  and eval_dict_items ::
      "env \<Rightarrow> testcase_parser \<Rightarrow> nat \<Rightarrow> pydict \<Rightarrow> pydict \<Rightarrow> (error + pydict) option"
  and eval_content_functions ::
      "env \<Rightarrow> testcase_parser \<Rightarrow> nat \<Rightarrow> string list \<Rightarrow> pyval \<Rightarrow> (error + pyval) option"
where
  "eval_content_with_bindings e p 0 content = None"
| "eval_content_with_bindings e p (Suc n) content =
     (case content of
        PNone \<Rightarrow> Some (Inr PNone)
      | PList xs \<Rightarrow> obind (eval_items e p n xs) (\<lambda>ys. Some (Inr (PList ys)))
      | PTuple xs \<Rightarrow> obind (eval_items e p n xs) (\<lambda>ys. Some (Inr (PList ys)))
      | PDict d \<Rightarrow> obind (eval_dict_items e p n d []) (\<lambda>d'. Some (Inr (PDict d')))
      | PStr s \<Rightarrow>
          obind (eval_content_functions e p n
                   (extract_functions (PStr (strip s))) (PStr (strip s)))
            (\<lambda>content'. Some (eval_content_variables e p content'))
      | _ \<Rightarrow> Some (Inr content))"
| "eval_items e p n [] = Some (Inr [])"
| "eval_items e p n (item # rest) =
     obind (eval_content_with_bindings e p n item) (\<lambda>y.
     obind (eval_items e p n rest) (\<lambda>ys. Some (Inr (y # ys))))"
| "eval_dict_items e p n [] evaluated_data = Some (Inr evaluated_data)"
| "eval_dict_items e p n ((key, val) # rest) evaluated_data =
     obind (eval_content_with_bindings e p n key) (\<lambda>eval_key.
     obind (eval_content_with_bindings e p n val) (\<lambda>eval_value.
     obind (Some (dict_setitem evaluated_data eval_key eval_value)) (\<lambda>evaluated_data'.
     eval_dict_items e p n rest evaluated_data')))"
| "eval_content_functions e p n [] content = Some (Inr content)"
| "eval_content_functions e p n (func_content # rest) content =
     obind (Some (parse_function e (PStr func_content))) (\<lambda>meta.
     obind (eval_content_with_bindings e p n (PList (args meta))) (\<lambda>as.
     obind (eval_content_with_bindings e p n (kwargs_value (kwargs meta))) (\<lambda>kw.
     obind (Some (call_function e p (func_name meta) as kw)) (\<lambda>eval_value.
     obind (Some (splice_function func_content content eval_value)) (\<lambda>content'.
     eval_content_functions e p n rest content')))))"
  by pat_completeness auto
termination
  by (relation "measures [
        (\<lambda>x. case x of
            Inl (Inl (e, p, n, c)) \<Rightarrow> 2 * n
          | Inl (Inr (e, p, n, xs)) \<Rightarrow> 2 * n + 1
          | Inr (Inl (e, p, n, d, acc)) \<Rightarrow> 2 * n + 1
          | Inr (Inr (e, p, n, gs, c)) \<Rightarrow> 2 * n + 1),
        (\<lambda>x. case x of
            Inl (Inl (e, p, n, c)) \<Rightarrow> 0
          | Inl (Inr (e, p, n, xs)) \<Rightarrow> length xs
          | Inr (Inl (e, p, n, d, acc)) \<Rightarrow> length d
          | Inr (Inr (e, p, n, gs, c)) \<Rightarrow> length gs)]") auto

text \<open>
  Lines 244 to 256 of \<^verbatim>\<open>_eval_content_functions\<close> on their own: the value of one function
  expression, which does not depend on the content it is spliced into.
\<close>

definition function_value ::
  "env \<Rightarrow> testcase_parser \<Rightarrow> nat \<Rightarrow> string \<Rightarrow> (error + pyval) option" where
  "function_value e p n func_content =
     obind (Some (parse_function e (PStr func_content))) (\<lambda>meta.
     obind (eval_content_with_bindings e p n (PList (args meta))) (\<lambda>as.
     obind (eval_content_with_bindings e p n (kwargs_value (kwargs meta))) (\<lambda>kw.
     Some (call_function e p (func_name meta) as kw))))"

text \<open>
  The splices of lines 258 to 267, and of lines 290 to 301, for a list of expressions
  with their values, one after the other from the left, each on the content that the
  splices before it have left.
\<close>

fun splice_functions :: "(string \<times> pyval) list \<Rightarrow> pyval \<Rightarrow> error + pyval" where
  "splice_functions [] content = Inr content"
| "splice_functions ((func_content, eval_value) # rest) content =
     ebind (splice_function func_content content eval_value) (splice_functions rest)"

fun splice_variables :: "(string \<times> pyval) list \<Rightarrow> pyval \<Rightarrow> error + pyval" where
  "splice_variables [] content = Inr content"
| "splice_variables ((variable_name, variable_value) # rest) content =
     ebind (splice_variable variable_name content variable_value) (splice_variables rest)"

section \<open>\<^verbatim>\<open>testcase.py\<close>: the parameter expander\<close>










section \<open>\<^verbatim>\<open>loader.py\<close>: the reference resolver\<close>

text \<open>
  \<^verbatim>\<open>overall_def_dict\<close> (lines 164 to 167): the registry of the loaded definitions, a
  mapping from the name to the block for each of the two reference types.
\<close>

record def_dict =
  api_defs :: pydict
  suite_defs :: pydict

text \<open>\<^verbatim>\<open>overall_def_dict.get(ref_type, {})\<close>.\<close>

definition defs_of :: "def_dict \<Rightarrow> string \<Rightarrow> pydict" where
  "defs_of dd ref_type =
     (if ref_type = ''api'' then api_defs dd
      else if ref_type = ''suite'' then suite_defs dd
      else [])"

text \<open>
  \<^verbatim>\<open>_get_test_definition\<close> (lines 337 to 355): a missing or empty block raises
  \<^verbatim>\<open>ApiNotFound\<close> for the type \<^verbatim>\<open>"api"\<close> and \<^verbatim>\<open>SuiteNotFound\<close> otherwise.
\<close>

definition not_found :: "string \<Rightarrow> string \<Rightarrow> error" where
  "not_found name ref_type =
     (if ref_type = ''api'' then ApiNotFound (name @ '' not found!'')
      else SuiteNotFound (name @ '' not found!''))"

definition get_test_definition :: "def_dict \<Rightarrow> string \<Rightarrow> string \<Rightarrow> error + pyval" where
  "get_test_definition dd name ref_type =
     (case dict_get (defs_of dd ref_type) (PStr name) of
        None \<Rightarrow> Inl (not_found name ref_type)
      | Some block \<Rightarrow> if py_truthy block then Inr block else Inl (not_found name ref_type))"

text \<open>
  The loop of lines 324 to 329: a declared parameter that differs from the argument at
  its position is recorded with that argument; storing under an unhashable parameter
  raises \<^verbatim>\<open>TypeError\<close>.
\<close>

fun args_mapping_loop :: "pyval list \<Rightarrow> pyval list \<Rightarrow> nat \<Rightarrow> pydict \<Rightarrow> error + pydict" where
  "args_mapping_loop call_args [] index args_mapping = Inr args_mapping"
| "args_mapping_loop call_args (item # rest) index args_mapping =
     (if \<not> index < length call_args then Inl IndexError
      else if py_eq (call_args ! index) item
        then args_mapping_loop call_args rest (Suc index) args_mapping
      else ebind (dict_setitem args_mapping item (call_args ! index)) (\<lambda>args_mapping'.
           args_mapping_loop call_args rest (Suc index) args_mapping'))"

text \<open>\<^verbatim>\<open>_get_block_by_name\<close> (lines 309 to 334).\<close>

definition mismatch :: error where
  "mismatch = ParamsError ''call args mismatch defined args!''"

definition get_block_by_name :: "env \<Rightarrow> def_dict \<Rightarrow> pyval \<Rightarrow> string \<Rightarrow> error + pyval" where
  "get_block_by_name e dd ref_call ref_type =
     ebind (parse_function e ref_call) (\<lambda>meta.
     ebind (get_test_definition dd (func_name meta) ref_type) (\<lambda>block.
     ebind (py_get_str block ''function_meta'' PNone) (\<lambda>block_meta.
     ebind (py_get_str block_meta ''args'' (PList [])) (\<lambda>def_args.
     ebind (py_len def_args) (\<lambda>def_len.
       if length (args meta) \<noteq> def_len then Inl mismatch
       else
         ebind (py_iter def_args) (\<lambda>def_items.
         ebind (args_mapping_loop (args meta) def_items 0 []) (\<lambda>args_mapping.
           if args_mapping \<noteq> []
           then substitute_variables_with_mapping e block args_mapping
           else Inr block)))))))"

section \<open>\<^verbatim>\<open>loader.py\<close>: the testset assembler\<close>

text \<open>
  The body of the loop of \<^verbatim>\<open>load_test_file\<close> (lines 277 to 304) for one item of the
  file, on the pair of \<^verbatim>\<open>testset["config"]\<close> and \<^verbatim>\<open>testset["testcases"]\<close>.
\<close>

definition format_error :: "string \<Rightarrow> error" where
  "format_error path = FileFormatError (''Testcase format error: '' @ path)"

definition load_test_item ::
  "env \<Rightarrow> def_dict \<Rightarrow> string \<Rightarrow> pyval \<Rightarrow> pydict \<times> pyval list \<Rightarrow> error + pydict \<times> pyval list" where
  "load_test_item e dd path item testset =
     (case item of
        PDict [(key, test_block)] \<Rightarrow>
          (case test_block of
             PDict block_items \<Rightarrow>
               if py_eq key (PStr ''config'') then
                 Inr (dict_update (fst testset) block_items, snd testset)
               else if py_eq key (PStr ''test'') then
                 (if dict_contains block_items (PStr ''api'') then
                    ebind (py_getitem_str test_block ''api'') (\<lambda>ref_call.
                    ebind (get_block_by_name e dd ref_call ''api'') (\<lambda>def_block.
                    ebind (override_block e def_block test_block) (\<lambda>test_block'.
                    Inr (fst testset, snd testset @ [test_block']))))
                  else if dict_contains block_items (PStr ''suite'') then
                    ebind (py_getitem_str test_block ''suite'') (\<lambda>ref_call.
                    ebind (get_block_by_name e dd ref_call ''suite'') (\<lambda>block.
                    ebind (py_getitem_str block ''testcases'') (\<lambda>suite_testcases.
                    ebind (py_iter suite_testcases) (\<lambda>tests.
                    Inr (fst testset, snd testset @ tests)))))
                  else Inr (fst testset, snd testset @ [test_block]))
               else Inr testset
           | _ \<Rightarrow> Inl (format_error path))
      | _ \<Rightarrow> Inl (format_error path))"

fun load_test_items ::
  "env \<Rightarrow> def_dict \<Rightarrow> string \<Rightarrow> pyval list \<Rightarrow> pydict \<times> pyval list \<Rightarrow> error + pydict \<times> pyval list" where
  "load_test_items e dd path [] testset = Inr testset"
| "load_test_items e dd path (item # rest) testset =
     ebind (load_test_item e dd path item testset) (\<lambda>testset'.
     load_test_items e dd path rest testset')"

text \<open>\<^verbatim>\<open>load_test_file\<close> (lines 238 to 306).\<close>

definition load_test_file :: "env \<Rightarrow> def_dict \<Rightarrow> string \<Rightarrow> error + pyval" where
  "load_test_file e dd path =
     ebind (load_file e path) (\<lambda>content.
     ebind (py_iter content) (\<lambda>file_items.
     ebind (load_test_items e dd path file_items ([(PStr ''path'', PStr path)], [])) (\<lambda>testset.
     Inr (PDict [(PStr ''config'', PDict (fst testset)),
                 (PStr ''testcases'', PList (snd testset))]))))"








section \<open>\<^verbatim>\<open>loader.py\<close>: folders and the cache of testcases\<close>

text \<open>
  The argument of \<^verbatim>\<open>load_folder_files\<close> and of \<^verbatim>\<open>load_testcases\<close> is one path, or a list
  or set of paths (\<^verbatim>\<open>isinstance(path, (list, set))\<close>).
\<close>

datatype path_arg = PathOne string | PathMany "string list"

text \<open>
  \<^verbatim>\<open>load_folder_files\<close> (lines 101 to 135). \<open>folder_files\<close> is its body for one folder
  path (lines 114 to 135): nothing when the path does not exist; else, for each
  directory that \<^verbatim>\<open>os.walk\<close> yields, the file names that end in \<^verbatim>\<open>.yml\<close>, \<^verbatim>\<open>.yaml\<close> or
  \<^verbatim>\<open>.json\<close>, joined to the path of the directory, and for the first directory only when
  \<^verbatim>\<open>recursive\<close> is false. For several paths (lines 107 to 112) the files of each path of
  the set are collected.
\<close>

definition folder_files :: "env \<Rightarrow> string \<Rightarrow> bool \<Rightarrow> string list" where
  "folder_files e folder_path recursive =
     (if \<not> path_exists e folder_path then []
      else concat (map (\<lambda>(dirpath, filenames).
                          map (path_join e dirpath)
                            (filter (\<lambda>filename. endswith filename ''.yml''
                                       \<or> endswith filename ''.yaml''
                                       \<or> endswith filename ''.json'') filenames))
                     (if recursive then walk e folder_path else take 1 (walk e folder_path))))"

fun load_folder_files :: "env \<Rightarrow> path_arg \<Rightarrow> bool \<Rightarrow> string list" where
  "load_folder_files e (PathMany paths) recursive =
     concat (map (\<lambda>path. folder_files e path recursive) (set_iter e paths))"
| "load_folder_files e (PathOne folder_path) recursive = folder_files e folder_path recursive"

text \<open>
  \<^verbatim>\<open>testcases_cache_mapping\<close> (line 168) is a dictionary of the module from a path to the
  list of testcases loaded from it. \<^verbatim>\<open>load_testcases\<close> reads and writes it, so the model
  takes the dictionary as an argument and returns it with the result, also when an
  exception is raised: what was written before the exception stays written.
  \<open>cache_set\<close> is \<^verbatim>\<open>testcases_cache_mapping[path] = testcases_list\<close>, and \<open>map_of\<close> the
  lookup.
\<close>

type_synonym testcases_cache = "(string \<times> pyval list) list"

fun cache_set :: "testcases_cache \<Rightarrow> string \<Rightarrow> pyval list \<Rightarrow> testcases_cache" where
  "cache_set [] path testcases_list = [(path, testcases_list)]"
| "cache_set ((k, v) # rest) path testcases_list =
     (if k = path then (k, testcases_list) # rest
      else (k, v) # cache_set rest path testcases_list)"

text \<open>Lines 381 to 382: a path that is not absolute is joined to the working directory.\<close>

definition abspath :: "env \<Rightarrow> string \<Rightarrow> string" where
  "abspath e path = (if \<not> isabs e path then path_join e (getcwd e) path else path)"

text \<open>
  Lines 392 to 399: the \<^verbatim>\<open>try\<close> block around \<^verbatim>\<open>load_test_file\<close> for one file. The testset
  is the one testcase of the file when its \<^verbatim>\<open>testcases\<close> are not empty; a
  \<^verbatim>\<open>FileFormatError\<close> raised in the block gives the empty list, and any other exception
  passes.
\<close>

definition load_testcases_of_file :: "env \<Rightarrow> def_dict \<Rightarrow> string \<Rightarrow> error + pyval list" where
  "load_testcases_of_file e dd path =
     (case ebind (load_test_file e dd path) (\<lambda>testcase.
           ebind (py_getitem_str testcase ''testcases'') (\<lambda>tests.
           Inr (if py_truthy tests then [testcase] else []))) of
        Inl (FileFormatError m) \<Rightarrow> Inr []
      | r \<Rightarrow> r)"

text \<open>
  A step on the cache followed by another: no result when the first has none, the
  exception of the first with the cache as the first left it, and else the second step
  on the value and the cache of the first.
\<close>

definition sbind ::
  "((error + 'a) \<times> 's) option \<Rightarrow> ('a \<Rightarrow> 's \<Rightarrow> ((error + 'b) \<times> 's) option)
     \<Rightarrow> ((error + 'b) \<times> 's) option" where
  "sbind m f =
     (case m of
        None \<Rightarrow> None
      | Some (Inl err, s) \<Rightarrow> Some (Inl err, s)
      | Some (Inr x, s) \<Rightarrow> f x s)"

lemma sbind_cong [fundef_cong]:
  "m = m' \<Longrightarrow> (\<And>x s. m' = Some (Inr x, s) \<Longrightarrow> f x s = f' x s) \<Longrightarrow> sbind m f = sbind m' f'"
  by (auto simp: sbind_def split: option.splits sum.splits prod.splits)

text \<open>
  \<^verbatim>\<open>load_testcases\<close> (lines 358 to 407), and \<open>load_testcases_loop\<close> for the loop of lines
  373 to 377 over \<^verbatim>\<open>set(path)\<close>, with \<^verbatim>\<open>testcases_list\<close> as the accumulator. The function
  calls itself on the files that \<^verbatim>\<open>os.walk\<close> finds below a folder, and what \<^verbatim>\<open>os.walk\<close>
  and \<^verbatim>\<open>os.path.isdir\<close> answer is not known here, so the recursion is bounded by a number
  of nested calls still allowed, as for the evaluator: \<open>None\<close> means that this number did
  not suffice.
\<close>

function load_testcases ::
      "env \<Rightarrow> def_dict \<Rightarrow> nat \<Rightarrow> path_arg \<Rightarrow> testcases_cache
         \<Rightarrow> ((error + pyval list) \<times> testcases_cache) option"
  and load_testcases_loop ::
      "env \<Rightarrow> def_dict \<Rightarrow> nat \<Rightarrow> string list \<Rightarrow> pyval list \<Rightarrow> testcases_cache
         \<Rightarrow> ((error + pyval list) \<times> testcases_cache) option"
where
  "load_testcases e dd 0 path cache = None"
| "load_testcases e dd (Suc n) (PathMany paths) cache =
     load_testcases_loop e dd n (set_iter e paths) [] cache"
| "load_testcases e dd (Suc n) (PathOne path) cache =
     (case map_of cache (abspath e path) of
        Some testcases_list \<Rightarrow> Some (Inr testcases_list, cache)
      | None \<Rightarrow>
          if isdir e (abspath e path) then
            sbind (load_testcases e dd n
                     (PathMany (load_folder_files e (PathOne (abspath e path)) True)) cache)
              (\<lambda>testcases_list cache'.
                 Some (Inr testcases_list, cache_set cache' (abspath e path) testcases_list))
          else if isfile e (abspath e path) then
            (case load_testcases_of_file e dd (abspath e path) of
               Inl err \<Rightarrow> Some (Inl err, cache)
             | Inr testcases_list \<Rightarrow>
                 Some (Inr testcases_list, cache_set cache (abspath e path) testcases_list))
          else Some (Inl (FileNotFound (''file not found: '' @ abspath e path)), cache))"
| "load_testcases_loop e dd n [] testcases_list cache = Some (Inr testcases_list, cache)"
| "load_testcases_loop e dd n (item_path # rest) testcases_list cache =
     sbind (load_testcases e dd n (PathOne item_path) cache) (\<lambda>testcases cache'.
       load_testcases_loop e dd n rest
         (if testcases = [] then testcases_list else testcases_list @ testcases) cache')"
  by pat_completeness auto
termination
  by (relation "measures [
        (\<lambda>x. case x of
            Inl (e, dd, n, p, c) \<Rightarrow> 2 * n
          | Inr (e, dd, n, ps, acc, c) \<Rightarrow> 2 * n + 1),
        (\<lambda>x. case x of
            Inl (e, dd, n, p, c) \<Rightarrow> 0
          | Inr (e, dd, n, ps, acc, c) \<Rightarrow> length ps)]") auto

text \<open>
  Two notions for the proofs about the cache. \<open>folder_lists e cache\<close> relates a folder
  that is not in the cache to the absolute path of each file that \<^verbatim>\<open>load_testcases\<close>
  loads for it: the paths of the nested calls of lines 388 to 389. A set of folders is
  \<open>self_listing\<close> when each of them has such a file in the set.
\<close>

definition folder_lists :: "env \<Rightarrow> testcases_cache \<Rightarrow> (string \<times> string) set" where
  "folder_lists e cache =
     {(x, y). map_of cache x = None \<and> isdir e x
              \<and> (\<exists>f \<in> set (set_iter e (load_folder_files e (PathOne x) True)).
                    abspath e f = y)}"

definition self_listing :: "env \<Rightarrow> string set \<Rightarrow> bool" where
  "self_listing e S =
     (\<forall>s \<in> S. isdir e s
              \<and> (\<exists>f \<in> set (set_iter e (load_folder_files e (PathOne s) True)).
                    abspath e f \<in> S))"

section \<open>A concrete environment\<close>

text \<open>
  The theorems below hold for every environment. The examples need one, and with it
  the two functions of \<^verbatim>\<open>httprunner.parser\<close>.
\<close>

text \<open>
  Modelled from the spec: \<^verbatim>\<open>parser.extract_variables\<close> is not among the sources. The spec
  writes a variable reference as \<^verbatim>\<open>$name\<close> and takes a name to be a maximal run of
  identifier characters; the docstring of \<^verbatim>\<open>_eval_content_variables\<close> has the examples
  \<^verbatim>\<open>$var_1#XYZ\<close> and \<^verbatim>\<open>/$var_1/$var_2/var3\<close>. So the names are found from left to right,
  each a dollar sign followed by the longest run of word characters, which is not empty;
  a content that is not a string has none.
\<close>

function findall_variables :: "string \<Rightarrow> string list" where
  "findall_variables [] = []"
| "findall_variables (c # cs) =
     (if c = CHR ''$'' \<and> takeWhile is_word_char cs \<noteq> []
      then takeWhile is_word_char cs # findall_variables (dropWhile is_word_char cs)
      else findall_variables cs)"
  by pat_completeness auto
termination
  by (relation "measure length") (auto simp: length_dropWhile_le less_Suc_eq_le)

fun extract_variables_spec :: "pyval \<Rightarrow> string list" where
  "extract_variables_spec (PStr s) = findall_variables s"
| "extract_variables_spec _ = []"

text \<open>
  Modelled from the spec: \<^verbatim>\<open>parser.parse_function\<close> is not among the sources. Section 4.1
  of the spec: \<^verbatim>\<open>name(arg1, arg2, key=val, ...)\<close> is parsed into the name, the positional
  arguments in order and the keyword arguments; white space around the parts does not
  count; an empty name or unbalanced parentheses are a syntax error. By the spec's
  examples \<^verbatim>\<open>f(a, b=c)\<close> gives the arguments \<^verbatim>\<open>["a"]\<close> and \<^verbatim>\<open>{"b": "c"}\<close>, and the
  arguments of \<^verbatim>\<open>add(1,2)\<close> are the integers 1 and 2: an argument that is a decimal
  number is that number, and any other argument is its text. Argument text with
  parentheses of its own (a nested call) is outside this model and refused.
\<close>

definition is_digit :: "char \<Rightarrow> bool" where
  "is_digit c = (c \<in> set ''0123456789'')"

definition digits_value :: "string \<Rightarrow> int" where
  "digits_value ds = fold (\<lambda>c n. 10 * n + (int (of_char c) - 48)) ds 0"

definition parse_string_value :: "string \<Rightarrow> pyval" where
  "parse_string_value s =
     (case s of
        [] \<Rightarrow> PStr s
      | c # cs \<Rightarrow>
          if list_all is_digit s then PInt (digits_value s)
          else if c = CHR ''-'' \<and> cs \<noteq> [] \<and> list_all is_digit cs then PInt (- digits_value cs)
          else PStr s)"

definition parse_function_spec :: "pyval \<Rightarrow> error + function_meta" where
  "parse_function_spec c =
     (case c of
        PStr s \<Rightarrow>
          (let name = takeWhile is_word_char (strip s);
               rest = dropWhile is_word_char (strip s) in
           if name = [] \<or> length rest < 2 \<or> hd rest \<noteq> CHR ''('' \<or> last rest \<noteq> CHR '')''
           then Inl (OtherError ''call signature syntax error'')
           else
             (let inner = strip (butlast (tl rest)) in
              if CHR ''('' \<in> set inner \<or> CHR '')'' \<in> set inner
              then Inl (OtherError ''call signature syntax error'')
              else if inner = [] then Inr \<lparr>func_name = name, args = [], kwargs = []\<rparr>
              else
                (let fields = map strip (split_on CHR '','' inner) in
                 Inr \<lparr>func_name = name,
                      args = map parse_string_value
                               (filter (\<lambda>a. CHR ''='' \<notin> set a) fields),
                      kwargs = map (\<lambda>a. (strip (takeWhile (\<lambda>x. x \<noteq> CHR ''='') a),
                                         parse_string_value
                                           (strip (tl (dropWhile (\<lambda>x. x \<noteq> CHR ''='') a)))))
                                 (filter (\<lambda>a. CHR ''='' \<in> set a) fields)\<rparr>)))
      | _ \<Rightarrow> Inl TypeError)"

text \<open>
  Modelled from the spec: \<^verbatim>\<open>utils._override_block\<close> is not among the sources. Section
  4.5 of the spec: the test block's own fields are applied as overrides on top of the
  resolved definition, the fields of the block winning field by field. So the result has
  the fields of the definition, updated with those of the test block.
\<close>

definition override_block_spec :: "pyval \<Rightarrow> pyval \<Rightarrow> error + pyval" where
  "override_block_spec def_block test_block =
     (case (def_block, test_block) of
        (PDict d, PDict t) \<Rightarrow> Inr (PDict (dict_update d t))
      | _ \<Rightarrow> Inl AttributeError)"

text \<open>
  The base of the concrete environments that the examples run in: the three functions
  above, an empty file system, and collaborators that find nothing.
\<close>

definition empty_env :: env where
  "empty_env =
     \<lparr> parse_function = parse_function_spec,
       extract_variables = extract_variables_spec,
       search_conf_function = (\<lambda>p n. Inl (FunctionNotFound n)),
       search_conf_variable = (\<lambda>p n. Inl (OtherError n)),
       substitute_variables_with_mapping = (\<lambda>c m. Inr c),
       override_block = override_block_spec,
       eval_callable = (\<lambda>n. Inr None),
       shuffle = (\<lambda>c. Inr c),
       isfile = (\<lambda>p. False),
       isdir = (\<lambda>p. False),
       path_exists = (\<lambda>p. False),
       isabs = (\<lambda>p. take 1 p = ''/''),
       getcwd = ''/'',
       path_join = (\<lambda>a b. a @ b),
       dirname = (\<lambda>p. ''/''),
       walk = (\<lambda>p. []),
       json_load = (\<lambda>p. Inl (OtherError p)),
       yaml_load = (\<lambda>p. Inl (OtherError p)),
       csv_rows = (\<lambda>p. Inl (OtherError p)),
       set_iter = remdups \<rparr>"

text \<open>A \<^verbatim>\<open>TestcaseParser\<close> without bindings and without a file path, as \<^verbatim>\<open>TestcaseParser()\<close> is.\<close>

definition no_bindings :: testcase_parser where
  "no_bindings = \<lparr>bound_variables = Map.empty, bound_functions = Map.empty, file_path = None\<rparr>"

text \<open>The function of the spec's example: \<^verbatim>\<open>add(a, b) = a + b\<close> on integers.\<close>

definition add_fun :: pyfun where
  "add_fun as kw =
     (case (as, kw) of
        ([PInt a, PInt b], []) \<Rightarrow> Inr (PInt (a + b))
      | _ \<Rightarrow> Inl TypeError)"

text \<open>
  The parsers of the examples: one with the variables \<^verbatim>\<open>uid = 1000\<close> and
  \<^verbatim>\<open>name = "bob"\<close> next to \<^verbatim>\<open>add\<close>; one with a function \<^verbatim>\<open>f\<close> that returns the text
  \<^verbatim>\<open>${g()}\<close> and a function \<^verbatim>\<open>g\<close> that returns \<^verbatim>\<open>"G"\<close>; and one with a function \<^verbatim>\<open>f\<close>
  that returns the text \<^verbatim>\<open>$y\<close> next to a variable \<^verbatim>\<open>y\<close> bound to \<^verbatim>\<open>"Z"\<close>.
\<close>

definition demo_parser :: testcase_parser where
  "demo_parser = \<lparr>bound_variables = [''uid'' \<mapsto> PInt 1000, ''name'' \<mapsto> PStr ''bob''],
                   bound_functions = [''add'' \<mapsto> add_fun], file_path = None\<rparr>"

definition chain_parser :: testcase_parser where
  "chain_parser =
     \<lparr>bound_variables = Map.empty,
      bound_functions = [''f'' \<mapsto> (\<lambda>as kw. Inr (PStr ''${g()}'')),
                         ''g'' \<mapsto> (\<lambda>as kw. Inr (PStr ''G''))],
      file_path = None\<rparr>"

definition rescan_parser :: testcase_parser where
  "rescan_parser =
     \<lparr>bound_variables = [''y'' \<mapsto> PStr ''Z''],
      bound_functions = [''f'' \<mapsto> (\<lambda>as kw. Inr (PStr ''$y''))],
      file_path = None\<rparr>"


text \<open>
  A registry with one api definition, \<^verbatim>\<open>login($user, $pw)\<close>, as \<^verbatim>\<open>load_api_file\<close>
  stores it: the block of the file without \<^verbatim>\<open>def\<close> and with \<^verbatim>\<open>function_meta\<close>.
\<close>

definition login_block :: pyval where
  "login_block =
     PDict [(PStr ''request'', PDict [(PStr ''url'', PStr ''/login/$user'')]),
            (PStr ''function_meta'',
             meta_value \<lparr>func_name = ''login'', args = [PStr ''$user'', PStr ''$pw''],
                         kwargs = []\<rparr>)]"

text \<open>
  And one suite, \<^verbatim>\<open>checkout()\<close>, as \<^verbatim>\<open>load_test_dependencies\<close> stores it: the testset
  assembled from the suite file, with \<^verbatim>\<open>function_meta\<close>.
\<close>

definition pay_block :: pyval where
  "pay_block =
     PDict [(PStr ''name'', PStr ''pay''),
            (PStr ''request'', PDict [(PStr ''url'', PStr ''/pay'')])]"

definition checkout_suite :: pyval where
  "checkout_suite =
     PDict [(PStr ''config'',
             PDict [(PStr ''path'', PStr ''/tests/suite/checkout.json''),
                    (PStr ''def'', PStr ''checkout()'')]),
            (PStr ''testcases'', PList [pay_block]),
            (PStr ''function_meta'',
             meta_value \<lparr>func_name = ''checkout'', args = [], kwargs = []\<rparr>)]"

definition example_defs :: def_dict where
  "example_defs = \<lparr>api_defs = [(PStr ''login'', login_block)],
                    suite_defs = [(PStr ''checkout'', checkout_suite)]\<rparr>"




text \<open>
  A file system with the one file \<^verbatim>\<open>/s.json\<close>, a testset of a suite reference between
  a config block and an inline test:
  \<^verbatim>\<open>[{"config": {"name": "demo"}}, {"test": {"suite": "checkout()"}},
   {"test": {"name": "inline"}}]\<close>.
\<close>

definition suite_file_env :: env where
  "suite_file_env =
     empty_env\<lparr>isfile := (\<lambda>p. p = ''/s.json''),
               json_load := (\<lambda>p. Inr (PList
                 [PDict [(PStr ''config'', PDict [(PStr ''name'', PStr ''demo'')])],
                  PDict [(PStr ''test'', PDict [(PStr ''suite'', PStr ''checkout()'')])],
                  PDict [(PStr ''test'', PDict [(PStr ''name'', PStr ''inline'')])]]))\<rparr>"

text \<open>The testset that \<^verbatim>\<open>load_test_file\<close> assembles from this content for a file at a path.\<close>

definition suite_testset :: "string \<Rightarrow> pyval" where
  "suite_testset path =
     PDict [(PStr ''config'', PDict [(PStr ''path'', PStr path), (PStr ''name'', PStr ''demo'')]),
            (PStr ''testcases'', PList [pay_block, PDict [(PStr ''name'', PStr ''inline'')]])]"

text \<open>
  A file system with a folder \<^verbatim>\<open>/t\<close> of three files and a file \<^verbatim>\<open>/c.yml\<close> outside it:
  \<^verbatim>\<open>/t/a.yml\<close> holds \<^verbatim>\<open>[1]\<close>, which is not a list of blocks; \<^verbatim>\<open>/t/s.json\<close> holds the
  testset above; \<^verbatim>\<open>/t/notes.txt\<close> is no testcase file; and \<^verbatim>\<open>/c.yml\<close> holds a test
  with a reference to an api \<^verbatim>\<open>nope()\<close> that no definition has.
\<close>

definition batch_env :: env where
  "batch_env =
     suite_file_env\<lparr>
       isdir := (\<lambda>p. p = ''/t''),
       path_exists := (\<lambda>p. p = ''/t''),
       isfile := (\<lambda>p. p \<in> set [''/t/a.yml'', ''/t/s.json'', ''/c.yml'']),
       walk := (\<lambda>p. if p = ''/t'' then [(''/t/'', [''a.yml'', ''s.json'', ''notes.txt''])] else []),
       yaml_load := (\<lambda>p. if p = ''/t/a.yml'' then Inr (PList [PInt 1])
                           else Inr (PList [PDict [(PStr ''test'',
                                                    PDict [(PStr ''api'', PStr ''nope()'')])]]))\<rparr>"

section \<open>Properties of the file loader\<close>

lemma splitext_ext_data_csv: "lower (splitext_ext ''data.csv'') = ''.csv''"
  by (simp add: splitext_ext_def basename_def lower_def lower_char_def)

text \<open>
  Claim C6. The claim says that \<^verbatim>\<open>load_file\<close> fails with \<^verbatim>\<open>FileFormatError\<close> on empty
  decoded content for every supported extension, \<^verbatim>\<open>.csv\<close> included. The JSON and YAML
  loaders call \<^verbatim>\<open>_check_format\<close>; \<^verbatim>\<open>load_csv_file\<close> does not, although its docstring
  says that it checks the content format. For an existing file with the extension
  \<^verbatim>\<open>.csv\<close> the result of \<^verbatim>\<open>load_file\<close> is whatever the CSV reader gives, also when that
  is the empty list.
\<close>

theorem load_file_csv_unchecked:
  assumes "isfile e p" and "lower (splitext_ext p) = ''.csv''"
  shows "load_file e p =
           (case csv_rows e p of Inl err \<Rightarrow> Inl err | Inr rows \<Rightarrow> Inr (PList rows))"
  using assms
  by (simp add: load_file_def load_csv_file_def ebind_def split: sum.splits)

theorem load_file_csv_unchecked_witness:
  "load_file (empty_env\<lparr>isfile := (\<lambda>p. p = ''data.csv''), csv_rows := (\<lambda>p. Inr [])\<rparr>)
     ''data.csv'' = Inr (PList [])"
  using load_file_csv_unchecked
    [of "empty_env\<lparr>isfile := (\<lambda>p. p = ''data.csv''), csv_rows := (\<lambda>p. Inr [])\<rparr>" "''data.csv''"]
  by (simp add: splitext_ext_data_csv)

section \<open>Properties of the evaluator\<close>

subsection \<open>Stripping\<close>

lemma strip_decomp:
  "s = takeWhile is_space s @ strip s @ rev (takeWhile is_space (rev (dropWhile is_space s)))"
proof -
  let ?t = "dropWhile is_space s"
  have "rev ?t = takeWhile is_space (rev ?t) @ dropWhile is_space (rev ?t)" by simp
  then have "?t = rev (dropWhile is_space (rev ?t)) @ rev (takeWhile is_space (rev ?t))"
    by (metis rev_append rev_rev_ident)
  then have "?t = strip s @ rev (takeWhile is_space (rev ?t))" by (simp add: strip_def)
  moreover have "s = takeWhile is_space s @ ?t" by simp
  ultimately show ?thesis by metis
qed

lemma strip_no_leading: "strip s \<noteq> [] \<Longrightarrow> \<not> is_space (hd (strip s))"
proof -
  assume ne: "strip s \<noteq> []"
  let ?t = "dropWhile is_space s"
  have t: "?t = strip s @ rev (takeWhile is_space (rev ?t))"
    using strip_decomp[of s] by (metis append_eq_append_conv takeWhile_dropWhile_id same_append_eq)
  then have "hd ?t = hd (strip s)" using ne by (metis hd_append2)
  moreover have "?t \<noteq> []" using t ne by (metis append_is_Nil_conv)
  ultimately show ?thesis by (metis hd_dropWhile)
qed

lemma strip_no_trailing: "strip s \<noteq> [] \<Longrightarrow> \<not> is_space (last (strip s))"
proof -
  assume ne: "strip s \<noteq> []"
  let ?r = "dropWhile is_space (rev (dropWhile is_space s))"
  have "strip s = rev ?r" by (simp add: strip_def)
  then have "?r \<noteq> []" and "last (strip s) = hd ?r" using ne by (auto simp: last_rev)
  then show ?thesis by (metis hd_dropWhile)
qed

lemma strip_fixed: "(s \<noteq> [] \<Longrightarrow> \<not> is_space (hd s) \<and> \<not> is_space (last s)) \<Longrightarrow> strip s = s"
proof (cases s)
  case Nil then show ?thesis by (simp add: strip_def)
next
  case (Cons c cs)
  assume "s \<noteq> [] \<Longrightarrow> \<not> is_space (hd s) \<and> \<not> is_space (last s)"
  with Cons have h: "\<not> is_space (hd s)" and l: "\<not> is_space (last s)" and ne: "s \<noteq> []" by auto
  have "dropWhile is_space s = s" using h Cons by simp
  moreover have "dropWhile is_space (rev s) = rev s"
    using l ne by (cases "rev s") (auto simp: hd_rev[symmetric] dest: arg_cong[where f=hd])
  ultimately show ?thesis by (simp add: strip_def)
qed

lemma strip_strip: "strip (strip s) = strip s"
  by (rule strip_fixed) (simp add: strip_no_leading strip_no_trailing)

lemma strip_surrounded:
  "\<exists>l r. s = l @ strip s @ r \<and> list_all is_space l \<and> list_all is_space r"
proof -
  let ?l = "takeWhile is_space s"
  let ?r = "rev (takeWhile is_space (rev (dropWhile is_space s)))"
  have "s = ?l @ strip s @ ?r" by (rule strip_decomp)
  moreover have "list_all is_space ?l" by (simp add: list_all_iff) (metis set_takeWhileD)
  moreover have "list_all is_space ?r" by (simp add: list_all_iff) (metis set_takeWhileD)
  ultimately show ?thesis by blast
qed

text \<open>
  Claim C10. On a string, \<^verbatim>\<open>eval_content_with_bindings\<close> works on the stripped text: the
  result for a string is the result for its stripped form. A string whose stripped form
  has no function expression and no variable is returned stripped, whenever at least one
  call is allowed. The stripped form is the string without a run of white space at each
  end, and it neither starts nor ends with white space. \<^verbatim>\<open>None\<close>, integers and booleans
  are returned as they are.
\<close>

theorem eval_string_stripped_scalars_unchanged:
  "eval_content_with_bindings e p n (PStr s) = eval_content_with_bindings e p n (PStr (strip s))
   \<and> (extract_functions (PStr (strip s)) = [] \<and> extract_variables e (PStr (strip s)) = []
        \<longrightarrow> eval_content_with_bindings e p (Suc n) (PStr s) = Some (Inr (PStr (strip s))))
   \<and> (\<exists>l r. s = l @ strip s @ r \<and> list_all is_space l \<and> list_all is_space r)
   \<and> (strip s \<noteq> [] \<longrightarrow> \<not> is_space (hd (strip s)) \<and> \<not> is_space (last (strip s)))
   \<and> eval_content_with_bindings e p (Suc n) PNone = Some (Inr PNone)
   \<and> eval_content_with_bindings e p (Suc n) (PInt i) = Some (Inr (PInt i))
   \<and> eval_content_with_bindings e p (Suc n) (PBool b) = Some (Inr (PBool b))"
proof -
  have a: "eval_content_with_bindings e p n (PStr s) = eval_content_with_bindings e p n (PStr (strip s))"
    by (cases n) (simp_all add: strip_strip)
  have b: "extract_functions (PStr (strip s)) = [] \<and> extract_variables e (PStr (strip s)) = []
        \<longrightarrow> eval_content_with_bindings e p (Suc n) (PStr s) = Some (Inr (PStr (strip s)))"
    by (simp add: obind_def eval_content_variables_def)
  have c: "strip s \<noteq> [] \<longrightarrow> \<not> is_space (hd (strip s)) \<and> \<not> is_space (last (strip s))"
    by (simp add: strip_no_leading strip_no_trailing)
  show ?thesis using a b c strip_surrounded[of s] by simp
qed

theorem eval_string_stripped_scalars_unchanged_witness:
  "eval_content_with_bindings empty_env no_bindings 1 (PStr ''  no expression here  '')
     = Some (Inr (PStr ''no expression here''))"
proof -
  have s: "strip ''  no expression here  '' = ''no expression here''"
    by (simp add: strip_def is_space_def)
  have f: "extract_functions (PStr ''no expression here'') = []"
    by (simp add: match_function_def)
  have v: "extract_variables empty_env (PStr ''no expression here'') = []"
    by (simp add: empty_env_def)
  from eval_string_stripped_scalars_unchanged
         [of empty_env no_bindings 0 "''  no expression here  ''"] s f v
  show ?thesis by simp
qed

subsection \<open>One expression: native value or spliced text\<close>

lemma replace_first_first:
  "old \<noteq> [] \<Longrightarrow> (\<forall>i<length pre. take (length old) (drop i (pre @ old @ post)) \<noteq> old)
   \<Longrightarrow> replace_first old new (pre @ old @ post) = pre @ new @ post"
proof (induction pre)
  case Nil
  then show ?case by (cases old) simp_all
next
  case (Cons a pre)
  from Cons.prems(2) have h0: "take (length old) ((a # pre) @ old @ post) \<noteq> old"
    by (metis drop0 length_greater_0_conv list.simps(3))
  have "\<forall>i<length pre. take (length old) (drop i (pre @ old @ post)) \<noteq> old"
  proof (intro allI impI)
    fix i assume "i < length pre"
    then have "Suc i < length (a # pre)" by simp
    with Cons.prems(2) have "take (length old) (drop (Suc i) ((a # pre) @ old @ post)) \<noteq> old"
      by blast
    then show "take (length old) (drop i (pre @ old @ post)) \<noteq> old" by simp
  qed
  with Cons.IH Cons.prems(1) have "replace_first old new (pre @ old @ post) = pre @ new @ post"
    by blast
  with h0 show ?case by simp
qed

lemma replace_first_absent:
  "(\<forall>i\<le>length s. take (length old) (drop i s) \<noteq> old) \<Longrightarrow> replace_first old new s = s"
proof (induction s)
  case Nil
  then show ?case by auto
next
  case (Cons a s)
  from Cons.prems have h0: "take (length old) (a # s) \<noteq> old"
    by (metis drop0 le0)
  have "\<forall>i\<le>length s. take (length old) (drop i s) \<noteq> old"
  proof (intro allI impI)
    fix i assume "i \<le> length s"
    then have "Suc i \<le> length (a # s)" by simp
    with Cons.prems have "take (length old) (drop (Suc i) (a # s)) \<noteq> old" by blast
    then show "take (length old) (drop i s) \<noteq> old" by simp
  qed
  with Cons.IH have "replace_first old new s = s" by blast
  with h0 show ?case by simp
qed

lemma match_function_expr:
  assumes "name \<noteq> []" "list_all is_word_char name" "list_all is_arg_char as"
  shows "match_function (''${'' @ name @ ''('' @ as @ '')}'' @ rest)
           = Some (name @ ''('' @ as @ '')'', rest)"
proof -
  have nw: "\<not> is_word_char CHR ''(''" by (simp add: is_word_char_def)
  have na: "\<not> is_arg_char CHR '')''" by (simp add: is_arg_char_def is_word_char_def)
  have t1: "takeWhile is_word_char (name @ ''('' @ as @ '')}'' @ rest) = name"
    using assms(2) nw by (simp add: list_all_iff takeWhile_append2)
  have d1: "dropWhile is_word_char (name @ ''('' @ as @ '')}'' @ rest) = ''('' @ as @ '')}'' @ rest"
    using assms(2) nw by (simp add: list_all_iff dropWhile_append2)
  have t2: "takeWhile is_arg_char (as @ '')}'' @ rest) = as"
    using assms(3) na by (simp add: list_all_iff takeWhile_append2)
  have d2: "dropWhile is_arg_char (as @ '')}'' @ rest) = '')}'' @ rest"
    using assms(3) na by (simp add: list_all_iff dropWhile_append2)
  show ?thesis
    using t1 d1 t2 d2 assms(1) by (simp add: match_function_def)
qed

lemma findall_functions_expr:
  assumes "name \<noteq> []" "list_all is_word_char name" "list_all is_arg_char as"
  shows "findall_functions (''${'' @ name @ ''('' @ as @ '')}'' @ rest)
           = (name @ ''('' @ as @ '')'') # findall_functions rest"
  using match_function_expr[OF assms, of rest] by simp

lemma findall_functions_no_brace: "CHR ''{'' \<notin> set s \<Longrightarrow> findall_functions s = []"
proof (induction s rule: findall_functions.induct)
  case 1
  then show ?case by simp
next
  case (2 c cs)
  have "match_function (c # cs) = None"
    using "2.prems" by (auto simp: match_function_def split: list.splits)
  with 2 show ?case by simp
qed


lemma py_eq_PStr_left: "py_eq (PStr a) k = (k = PStr a)"
  by (cases k) auto

text \<open>
  The two loops as folds. The value of a function expression does not depend on the
  content, so the loop of \<^verbatim>\<open>_eval_content_functions\<close> over expressions that all have a
  value is the fold of their splices from the left; the first expression without a value
  ends the loop with its exception. The same holds for the loop of
  \<^verbatim>\<open>_eval_content_variables\<close> over bound variables.
\<close>

lemma eval_content_functions_step:
  "eval_content_functions e p n (g # rest) content =
     obind (function_value e p n g) (\<lambda>v.
     obind (Some (splice_function g content v)) (\<lambda>content'.
     eval_content_functions e p n rest content'))"
  by (simp add: function_value_def obind_def split: option.splits sum.splits)

lemma functions_loop_splices:
  "list_all2 (\<lambda>g v. function_value e p n g = Some (Inr v)) gs vs \<Longrightarrow>
     eval_content_functions e p n gs content = Some (splice_functions (zip gs vs) content)"
proof (induction gs vs arbitrary: content rule: list_all2_induct)
  case Nil
  show ?case by simp
next
  case (Cons g gs v vs)
  show ?case
  proof (cases "splice_function g content v")
    case (Inl err)
    with Cons.hyps(1) show ?thesis
      by (simp add: eval_content_functions_step obind_def ebind_def
               del: eval_content_functions.simps)
  next
    case (Inr c')
    with Cons.hyps(1) Cons.IH[of c'] show ?thesis
      by (simp add: eval_content_functions_step obind_def ebind_def
               del: eval_content_functions.simps)
  qed
qed

lemma functions_loop_first_error:
  assumes "k < length gs"
    and "list_all2 (\<lambda>g v. function_value e p n g = Some (Inr v)) (take k gs) vs"
    and "splice_functions (zip (take k gs) vs) content = Inr c"
    and "function_value e p n (gs ! k) = Some (Inl err)"
  shows "eval_content_functions e p n gs content = Some (Inl err)"
  using assms
proof (induction gs arbitrary: k vs content)
  case Nil
  then show ?case by simp
next
  case (Cons g gs)
  show ?case
  proof (cases k)
    case 0
    with Cons.prems(4) show ?thesis
      by (simp add: eval_content_functions_step obind_def del: eval_content_functions.simps)
  next
    case (Suc k')
    with Cons.prems(2) obtain v vs' where vs: "vs = v # vs'"
      and fv: "function_value e p n g = Some (Inr v)"
      and r: "list_all2 (\<lambda>g v. function_value e p n g = Some (Inr v)) (take k' gs) vs'"
      by (auto simp: list_all2_Cons1)
    from Cons.prems(3) Suc vs obtain c' where
      s: "splice_function g content v = Inr c'"
      and sr: "splice_functions (zip (take k' gs) vs') c' = Inr c"
      by (auto simp: ebind_def split: sum.splits)
    from Cons.prems(1,4) Suc have k': "k' < length gs"
      and e: "function_value e p n (gs ! k') = Some (Inl err)" by simp_all
    from Cons.IH[OF k' r sr e] fv s show ?thesis
      by (simp add: eval_content_functions_step obind_def del: eval_content_functions.simps)
  qed
qed

lemma functions_loop_returns:
  "(\<forall>g \<in> set gs. function_value e p n g \<noteq> None) \<Longrightarrow>
     eval_content_functions e p n gs content \<noteq> None"
proof (induction gs arbitrary: content)
  case Nil
  show ?case by simp
next
  case (Cons g gs)
  then show ?case
    by (auto simp: eval_content_functions_step obind_def
             simp del: eval_content_functions.simps split: option.splits sum.splits)
qed

lemma get_bind_variable_bound:
  "bound_variables p x = Some w \<Longrightarrow> get_bind_variable e p x = Inr w"
  by (simp add: get_bind_variable_def)

lemma variables_loop_splices:
  "list_all2 (\<lambda>x w. bound_variables p x = Some w) xs ws \<Longrightarrow>
     eval_variables_loop e p xs content = splice_variables (zip xs ws) content"
proof (induction xs ws arbitrary: content rule: list_all2_induct)
  case Nil
  show ?case by simp
next
  case (Cons x xs w ws)
  then show ?case
    by (cases "splice_variable x content w")
       (simp_all add: get_bind_variable_bound ebind_def)
qed

lemma py_kwargs_kwargs_value: "py_kwargs (kwargs_value kw) = Inr kw"
proof -
  have "list_all (\<lambda>(k, v). case k of PStr s \<Rightarrow> True | _ \<Rightarrow> False)
          (map (\<lambda>(k, v). (PStr k, v)) kw)"
    by (induction kw) auto
  moreover have "map (\<lambda>(k, v). (case k of PStr s \<Rightarrow> s | _ \<Rightarrow> [], v))
                   (map (\<lambda>(k, v). (PStr k, v)) kw) = kw"
    by (induction kw) auto
  ultimately show ?thesis by (simp add: kwargs_value_def)
qed

lemma call_function_bound:
  "fname \<notin> set [''parameterize'', ''P''] \<Longrightarrow> bound_functions p fname = Some f \<Longrightarrow>
     call_function e p fname (PList as) (kwargs_value kw) = f as kw"
  by (simp add: call_function_def get_bind_function_def ebind_def py_kwargs_kwargs_value)

lemma splice_function_cases:
  "splice_function g content v =
     (if content = PStr (''${'' @ g @ ''}'') then Inr v
      else case content of
             PStr c \<Rightarrow> Inr (PStr (replace_first (''${'' @ g @ ''}'') (py_str v) c))
           | _ \<Rightarrow> Inl AttributeError)"
  by (cases content) (simp_all add: splice_function_def py_eq_PStr_left Let_def)

lemma splice_variable_cases:
  "splice_variable x content w =
     (if content = PStr (''$'' @ x) then Inr w
      else case content of
             PStr c \<Rightarrow> Inr (PStr (replace_first (''$'' @ x) (py_str w) c))
           | _ \<Rightarrow> Inl AttributeError)"
  by (cases content) (simp_all add: splice_variable_def py_eq_PStr_left Let_def py_str_def split: pyval.splits)

lemma whole_string_variable:
  assumes "strip s = ''$'' @ x" "list_all is_word_char x"
    and "extract_variables e (PStr (''$'' @ x)) = [x]" "bound_variables p x = Some w"
  shows "eval_content_with_bindings e p (Suc n) (PStr s) = Some (Inr w)"
proof -
  have nb: "\<not> is_word_char CHR ''{''" by (simp add: is_word_char_def)
  have "CHR ''{'' \<notin> set x" using assms(2) nb unfolding list_all_iff by blast
  then have "CHR ''{'' \<notin> set (''$'' @ x)" by simp
  then have "findall_functions (''$'' @ x) = []" by (rule findall_functions_no_brace)
  then have "eval_content_with_bindings e p (Suc n) (PStr s) =
               Some (eval_content_variables e p (PStr (''$'' @ x)))"
    using assms(1) by (simp add: obind_def)
  also have "eval_content_variables e p (PStr (''$'' @ x)) = Inr w"
    using assms(3,4)
    by (simp add: eval_content_variables_def get_bind_variable_bound ebind_def
          splice_variable_cases)
  finally show ?thesis .
qed

lemma whole_string_function:
  assumes "strip s = ''${'' @ g @ ''}''" "extract_functions (PStr (strip s)) = [g]"
    and "function_value e p n g = Some (Inr v)"
  shows "eval_content_with_bindings e p (Suc n) (PStr s) = Some (eval_content_variables e p v)"
proof -
  have "list_all2 (\<lambda>g v. function_value e p n g = Some (Inr v)) [g] [v]"
    using assms(3) by simp
  from functions_loop_splices[OF this, of "PStr (''${'' @ g @ ''}'')"]
  have "eval_content_functions e p n [g] (PStr (''${'' @ g @ ''}'')) = Some (Inr v)"
    by (simp add: splice_function_cases ebind_def del: eval_content_functions.simps)
  then show ?thesis
    using assms(1,2) by (simp add: obind_def del: eval_content_functions.simps)
qed

text \<open>
  Claim C5, amended. A string that is exactly one variable \<^verbatim>\<open>$name\<close> evaluates to the
  value bound to the name, as it is. A string that is exactly one function expression
  \<^verbatim>\<open>${g}\<close> becomes the value of the call, as it is, in the function pass, and the
  evaluation returns what the variable pass makes of this value: the value itself when
  no variable is found in it, so that \<^verbatim>\<open>${add(1,2)}\<close> gives the integer 3. An expression
  embedded in a larger content gets \<^verbatim>\<open>str\<close> of its value in place of the first
  occurrence of its text, and of that occurrence only. The expressions of a pass are
  those found in the content before the pass, taken one after the other from the left,
  each splice working on the content that the splices before it have left; a bound
  function is called on the evaluated arguments, and a variable has the value that the
  parser binds to it.
\<close>

theorem expression_value_native_or_spliced:
  "(list_all2 (\<lambda>g v. function_value e p n g = Some (Inr v)) gs vs \<longrightarrow>
      eval_content_functions e p n gs content = Some (splice_functions (zip gs vs) content))
   \<and> splice_function g content v =
       (if content = PStr (''${'' @ g @ ''}'') then Inr v
        else case content of
               PStr c \<Rightarrow> Inr (PStr (replace_first (''${'' @ g @ ''}'') (py_str v) c))
             | _ \<Rightarrow> Inl AttributeError)
   \<and> (list_all2 (\<lambda>x w. bound_variables p x = Some w) (extract_variables e content) ws \<longrightarrow>
      eval_content_variables e p content
        = splice_variables (zip (extract_variables e content) ws) content)
   \<and> splice_variable x content w =
       (if content = PStr (''$'' @ x) then Inr w
        else case content of
               PStr c \<Rightarrow> Inr (PStr (replace_first (''$'' @ x) (py_str w) c))
             | _ \<Rightarrow> Inl AttributeError)
   \<and> (strip s = ''$'' @ x \<and> list_all is_word_char x
        \<and> extract_variables e (PStr (''$'' @ x)) = [x] \<and> bound_variables p x = Some w
      \<longrightarrow> eval_content_with_bindings e p (Suc n) (PStr s) = Some (Inr w))
   \<and> (strip s = ''${'' @ g @ ''}'' \<and> extract_functions (PStr (strip s)) = [g]
        \<and> function_value e p n g = Some (Inr v)
      \<longrightarrow> eval_content_with_bindings e p (Suc n) (PStr s) = Some (eval_content_variables e p v)
          \<and> (extract_variables e v = [] \<longrightarrow>
               eval_content_with_bindings e p (Suc n) (PStr s) = Some (Inr v)))
   \<and> (name \<noteq> [] \<and> list_all is_word_char name \<and> list_all is_arg_char atext
      \<longrightarrow> extract_functions (PStr (''${'' @ name @ ''('' @ atext @ '')}''))
            = [name @ ''('' @ atext @ '')''])
   \<and> (old \<noteq> [] \<and> (\<forall>i<length pre. take (length old) (drop i (pre @ old @ post)) \<noteq> old)
      \<longrightarrow> replace_first old new (pre @ old @ post) = pre @ new @ post)
   \<and> ((\<forall>i\<le>length t. take (length old) (drop i t) \<noteq> old) \<longrightarrow> replace_first old new t = t)
   \<and> (fname \<notin> set [''parameterize'', ''P''] \<and> bound_functions p fname = Some f
      \<longrightarrow> call_function e p fname (PList as) (kwargs_value kw) = f as kw)"
proof -
  have f: "eval_content_functions e p n gs content = Some (splice_functions (zip gs vs) content)"
    if "list_all2 (\<lambda>g v. function_value e p n g = Some (Inr v)) gs vs"
    using that by (rule functions_loop_splices)
  have v: "eval_content_variables e p content
        = splice_variables (zip (extract_variables e content) ws) content"
    if "list_all2 (\<lambda>x w. bound_variables p x = Some w) (extract_variables e content) ws"
    using variables_loop_splices[OF that] by (simp add: eval_content_variables_def)
  have wv: "eval_content_with_bindings e p (Suc n) (PStr s) = Some (Inr w)"
    if "strip s = ''$'' @ x" "list_all is_word_char x"
       "extract_variables e (PStr (''$'' @ x)) = [x]" "bound_variables p x = Some w"
    using that by (rule whole_string_variable)
  have wf: "eval_content_with_bindings e p (Suc n) (PStr s) = Some (eval_content_variables e p v)
          \<and> (extract_variables e v = [] \<longrightarrow>
               eval_content_with_bindings e p (Suc n) (PStr s) = Some (Inr v))"
    if h: "strip s = ''${'' @ g @ ''}''" "extract_functions (PStr (strip s)) = [g]"
       "function_value e p n g = Some (Inr v)"
  proof -
    note a = whole_string_function[OF h]
    have "extract_variables e v = [] \<longrightarrow> eval_content_variables e p v = Inr v"
      by (simp add: eval_content_variables_def)
    with a show ?thesis by simp
  qed
  have r: "extract_functions (PStr (''${'' @ name @ ''('' @ atext @ '')}''))
              = [name @ ''('' @ atext @ '')'']"
    if "name \<noteq> []" "list_all is_word_char name" "list_all is_arg_char atext"
    using findall_functions_expr[OF that, of "[]"] by simp
  have q: "replace_first old new (pre @ old @ post) = pre @ new @ post"
    if "old \<noteq> []" "\<forall>i<length pre. take (length old) (drop i (pre @ old @ post)) \<noteq> old"
    using replace_first_first[OF that] .
  have q': "replace_first old new t = t" if "\<forall>i\<le>length t. take (length old) (drop i t) \<noteq> old"
    using replace_first_absent[OF that] .
  have c: "call_function e p fname (PList as) (kwargs_value kw) = f as kw"
    if "fname \<notin> set [''parameterize'', ''P'']" "bound_functions p fname = Some f"
    using that by (rule call_function_bound)
  show ?thesis
    using f splice_function_cases[of g content v] v splice_variable_cases[of x content w]
      wv wf r q q' c
    by blast
qed

lemma demo_function_parts:
  "function_value empty_env demo_parser 2 ''add(1,2)'' = Some (Inr (PInt 3))"
  "function_value empty_env demo_parser 2 ''add(3,4)'' = Some (Inr (PInt 7))"
  "splice_functions (zip [''add(1,2)'', ''add(3,4)''] [PInt 3, PInt 7])
     (PStr ''/api/${add(1,2)}/${add(3,4)}'') = Inr (PStr ''/api/3/7'')"
  "strip ''${add(1,2)}'' = ''${'' @ ''add(1,2)'' @ ''}''"
  "extract_functions (PStr (strip ''${add(1,2)}'')) = [''add(1,2)'']"
  "extract_variables empty_env (PInt 3) = []"
  by code_simp+

lemma demo_variable_parts:
  "strip '' $uid '' = ''$'' @ ''uid''"
  "list_all is_word_char ''uid''"
  "extract_variables empty_env (PStr (''$'' @ ''uid'')) = [''uid'']"
  "bound_variables demo_parser ''uid'' = Some (PInt 1000)"
  "bound_variables demo_parser ''name'' = Some (PStr ''bob'')"
  "extract_variables empty_env (PStr ''/users/$uid/$name'') = [''uid'', ''name'']"
  "splice_variables (zip [''uid'', ''name''] [PInt 1000, PStr ''bob''])
     (PStr ''/users/$uid/$name'') = Inr (PStr ''/users/1000/bob'')"
  by code_simp+

theorem expression_value_native_or_spliced_witness:
  "eval_content_with_bindings empty_env demo_parser (Suc 2) (PStr ''${add(1,2)}'')
     = Some (Inr (PInt 3))
   \<and> eval_content_functions empty_env demo_parser 2 [''add(1,2)'', ''add(3,4)'']
       (PStr ''/api/${add(1,2)}/${add(3,4)}'') = Some (Inr (PStr ''/api/3/7''))
   \<and> eval_content_with_bindings empty_env demo_parser (Suc 0) (PStr '' $uid '')
       = Some (Inr (PInt 1000))
   \<and> eval_content_variables empty_env demo_parser (PStr ''/users/$uid/$name'')
       = Inr (PStr ''/users/1000/bob'')"
proof -
  note t1 = expression_value_native_or_spliced
      [where e = empty_env and p = demo_parser and n = 2 and s = "''${add(1,2)}''"
         and g = "''add(1,2)''" and v = "PInt 3"
         and gs = "[''add(1,2)'', ''add(3,4)'']" and vs = "[PInt 3, PInt 7]"
         and content = "PStr ''/api/${add(1,2)}/${add(3,4)}''"]
  note t2 = expression_value_native_or_spliced
      [where e = empty_env and p = demo_parser and n = 0 and s = "'' $uid ''"
         and x = "''uid''" and w = "PInt 1000"
         and content = "PStr ''/users/$uid/$name''" and ws = "[PInt 1000, PStr ''bob'']"]
  have l1: "list_all2 (\<lambda>g v. function_value empty_env demo_parser 2 g = Some (Inr v))
              [''add(1,2)'', ''add(3,4)''] [PInt 3, PInt 7]"
    by (simp add: demo_function_parts(1,2))
  have l2: "list_all2 (\<lambda>x w. bound_variables demo_parser x = Some w)
              (extract_variables empty_env (PStr ''/users/$uid/$name''))
              [PInt 1000, PStr ''bob'']"
    by (simp add: demo_variable_parts(4,5,6))
  from t1 demo_function_parts(1,4,5,6)
  have a: "eval_content_with_bindings empty_env demo_parser (Suc 2) (PStr ''${add(1,2)}'')
     = Some (Inr (PInt 3))"
    by blast
  from t1 l1
  have "eval_content_functions empty_env demo_parser 2 [''add(1,2)'', ''add(3,4)'']
          (PStr ''/api/${add(1,2)}/${add(3,4)}'')
        = Some (splice_functions (zip [''add(1,2)'', ''add(3,4)''] [PInt 3, PInt 7])
                  (PStr ''/api/${add(1,2)}/${add(3,4)}''))"
    by blast
  then have b: "eval_content_functions empty_env demo_parser 2 [''add(1,2)'', ''add(3,4)'']
       (PStr ''/api/${add(1,2)}/${add(3,4)}'') = Some (Inr (PStr ''/api/3/7''))"
    by (simp only: demo_function_parts(3))
  from t2 demo_variable_parts(1-4)
  have c: "eval_content_with_bindings empty_env demo_parser (Suc 0) (PStr '' $uid '')
       = Some (Inr (PInt 1000))"
    by blast
  from t2 l2
  have "eval_content_variables empty_env demo_parser (PStr ''/users/$uid/$name'')
        = splice_variables (zip (extract_variables empty_env (PStr ''/users/$uid/$name''))
                              [PInt 1000, PStr ''bob'']) (PStr ''/users/$uid/$name'')"
    by blast
  then have d: "eval_content_variables empty_env demo_parser (PStr ''/users/$uid/$name'')
       = Inr (PStr ''/users/1000/bob'')"
    by (simp only: demo_variable_parts(6,7))
  from a b c d show ?thesis by blast
qed

text \<open>
  Claim C5 says that a string that is exactly one function call evaluates to the value
  of the call with its native type. With \<^verbatim>\<open>f\<close> returning the text \<^verbatim>\<open>$y\<close> and \<^verbatim>\<open>y\<close> bound
  to \<^verbatim>\<open>"Z"\<close>, the string \<^verbatim>\<open>${f()}\<close> evaluates to \<^verbatim>\<open>Z\<close> and not to the value \<^verbatim>\<open>$y\<close>
  of the call: the variable pass of line 361 runs over the value that the function pass
  of line 358 returns.
\<close>

theorem whole_string_function_value_rescanned:
  "function_value empty_env rescan_parser 2 ''f()'' = Some (Inr (PStr ''$y''))
   \<and> eval_content_with_bindings empty_env rescan_parser 3 (PStr ''${f()}'')
       = Some (Inr (PStr ''Z''))
   \<and> eval_content_with_bindings empty_env rescan_parser 3 (PStr ''${f()}'')
       \<noteq> Some (Inr (PStr ''$y''))"
  by code_simp

subsection \<open>The order of the two passes\<close>

text \<open>
  Claim C1 says that a \<^verbatim>\<open>$name\<close> inside the return value of a function, once spliced
  into the string, is not substituted by the variable pass. With \<^verbatim>\<open>f\<close> returning the
  text \<^verbatim>\<open>$y\<close> and \<^verbatim>\<open>y\<close> bound to \<^verbatim>\<open>"Z"\<close>, the string \<^verbatim>\<open>x${f()}\<close> evaluates to
  \<^verbatim>\<open>xZ\<close> and not to \<^verbatim>\<open>x$y\<close>: the variable pass of line 361 scans the content that
  the function pass of line 358 returns, spliced values included.
\<close>

theorem function_value_rescanned_by_variable_pass:
  "call_function empty_env rescan_parser ''f'' (PList []) (PDict []) = Inr (PStr ''$y'')
   \<and> eval_content_with_bindings empty_env rescan_parser 3 (PStr ''x${f()}'')
       = Some (Inr (PStr ''xZ''))
   \<and> eval_content_with_bindings empty_env rescan_parser 3 (PStr ''x${f()}'')
       \<noteq> Some (Inr (PStr ''x$y''))"
  by code_simp

text \<open>
  Claim C1, amended. On a string the function pass runs first and to its end: the list
  of function expressions is found once, in the stripped string before any
  substitution, and when each of them has a value the result of the evaluation is that
  of the variable pass over the content with all these values spliced in, from the
  left. With every variable found in that content bound, this is the content with the
  values of the variables spliced in as well. The first function expression without a
  value ends the evaluation with its exception, and the variable pass does not run.
  When every function expression returns, so does the evaluation. A value
  returned by a function is part of the content from then on: the splice of a later
  function expression may fall into it, and a \<^verbatim>\<open>$name\<close> inside it is substituted by the
  variable pass like any other.
\<close>

theorem function_pass_then_variable_pass_over_result:
  "(list_all2 (\<lambda>g v. function_value e p n g = Some (Inr v))
      (extract_functions (PStr (strip s))) vs
    \<longrightarrow> eval_content_with_bindings e p (Suc n) (PStr s)
          = (case splice_functions (zip (extract_functions (PStr (strip s))) vs)
                    (PStr (strip s)) of
               Inl err \<Rightarrow> Some (Inl err)
             | Inr c \<Rightarrow> Some (eval_content_variables e p c)))
   \<and> (list_all2 (\<lambda>g v. function_value e p n g = Some (Inr v))
        (extract_functions (PStr (strip s))) vs
      \<and> splice_functions (zip (extract_functions (PStr (strip s))) vs) (PStr (strip s))
          = Inr c
      \<and> list_all2 (\<lambda>x w. bound_variables p x = Some w) (extract_variables e c) ws
    \<longrightarrow> eval_content_with_bindings e p (Suc n) (PStr s)
          = Some (splice_variables (zip (extract_variables e c) ws) c))
   \<and> (k < length (extract_functions (PStr (strip s)))
      \<and> list_all2 (\<lambda>g v. function_value e p n g = Some (Inr v))
          (take k (extract_functions (PStr (strip s)))) vs
      \<and> splice_functions (zip (take k (extract_functions (PStr (strip s)))) vs)
          (PStr (strip s)) = Inr c
      \<and> function_value e p n (extract_functions (PStr (strip s)) ! k) = Some (Inl err)
    \<longrightarrow> eval_content_with_bindings e p (Suc n) (PStr s) = Some (Inl err))
   \<and> ((\<forall>g \<in> set (extract_functions (PStr (strip s))). function_value e p n g \<noteq> None)
    \<longrightarrow> eval_content_with_bindings e p (Suc n) (PStr s) \<noteq> None)"
proof -
  let ?gs = "extract_functions (PStr (strip s))"
  have unfold: "eval_content_with_bindings e p (Suc n) (PStr s) =
     obind (eval_content_functions e p n ?gs (PStr (strip s)))
       (\<lambda>content. Some (eval_content_variables e p content))"
    by simp
  have a: "eval_content_with_bindings e p (Suc n) (PStr s)
          = (case splice_functions (zip ?gs vs) (PStr (strip s)) of
               Inl err \<Rightarrow> Some (Inl err)
             | Inr c \<Rightarrow> Some (eval_content_variables e p c))"
    if "list_all2 (\<lambda>g v. function_value e p n g = Some (Inr v)) ?gs vs"
    unfolding unfold functions_loop_splices[OF that]
    by (simp add: obind_def split: sum.splits)
  have b: "eval_content_with_bindings e p (Suc n) (PStr s)
          = Some (splice_variables (zip (extract_variables e c) ws) c)"
    if h: "list_all2 (\<lambda>g v. function_value e p n g = Some (Inr v)) ?gs vs"
      "splice_functions (zip ?gs vs) (PStr (strip s)) = Inr c"
      "list_all2 (\<lambda>x w. bound_variables p x = Some w) (extract_variables e c) ws"
  proof -
    have "eval_content_with_bindings e p (Suc n) (PStr s) = Some (eval_content_variables e p c)"
      using a[OF h(1)] h(2) by simp
    also have "eval_content_variables e p c
                 = splice_variables (zip (extract_variables e c) ws) c"
      using variables_loop_splices[OF h(3)] by (simp add: eval_content_variables_def)
    finally show ?thesis .
  qed
  have c: "eval_content_with_bindings e p (Suc n) (PStr s) = Some (Inl err)"
    if h: "k < length ?gs"
      "list_all2 (\<lambda>g v. function_value e p n g = Some (Inr v)) (take k ?gs) vs"
      "splice_functions (zip (take k ?gs) vs) (PStr (strip s)) = Inr c"
      "function_value e p n (?gs ! k) = Some (Inl err)"
    unfolding unfold functions_loop_first_error[OF h]
    by (simp add: obind_def)
  have d: "eval_content_with_bindings e p (Suc n) (PStr s) \<noteq> None"
    if "\<forall>g \<in> set ?gs. function_value e p n g \<noteq> None"
    using functions_loop_returns[OF that, of "PStr (strip s)"] unfolding unfold
    by (auto simp: obind_def split: option.splits sum.splits)
  show ?thesis using a b c d by blast
qed

text \<open>
  Three strings: \<^verbatim>\<open>x${f()}\<close> with \<^verbatim>\<open>f\<close> returning \<^verbatim>\<open>$y\<close> and \<^verbatim>\<open>y\<close> bound to \<^verbatim>\<open>"Z"\<close>;
  \<^verbatim>\<open>${f()}-${g()}\<close> with \<^verbatim>\<open>f\<close> returning \<^verbatim>\<open>${g()}\<close> and \<^verbatim>\<open>g\<close> returning \<^verbatim>\<open>"G"\<close>, where the
  value of \<^verbatim>\<open>g\<close> replaces the text that \<^verbatim>\<open>f\<close> returned; and \<^verbatim>\<open>$nope${f()}${nofn()}\<close>,
  where neither the variable \<^verbatim>\<open>nope\<close> nor the function \<^verbatim>\<open>nofn\<close> is bound and the
  exception is that of the function.
\<close>

lemma rescan_pass_parts:
  "extract_functions (PStr (strip ''x${f()}'')) = [''f()'']"
  "function_value empty_env rescan_parser 2 ''f()'' = Some (Inr (PStr ''$y''))"
  "splice_functions (zip (extract_functions (PStr (strip ''x${f()}''))) [PStr ''$y''])
     (PStr (strip ''x${f()}'')) = Inr (PStr ''x$y'')"
  "extract_variables empty_env (PStr ''x$y'') = [''y'']"
  "bound_variables rescan_parser ''y'' = Some (PStr ''Z'')"
  "splice_variables (zip (extract_variables empty_env (PStr ''x$y'')) [PStr ''Z''])
     (PStr ''x$y'') = Inr (PStr ''xZ'')"
  by code_simp+

lemma chain_pass_parts:
  "extract_functions (PStr (strip ''${f()}-${g()}'')) = [''f()'', ''g()'']"
  "function_value empty_env chain_parser 2 ''f()'' = Some (Inr (PStr ''${g()}''))"
  "function_value empty_env chain_parser 2 ''g()'' = Some (Inr (PStr ''G''))"
  "splice_functions (zip (extract_functions (PStr (strip ''${f()}-${g()}'')))
                       [PStr ''${g()}'', PStr ''G''])
     (PStr (strip ''${f()}-${g()}'')) = Inr (PStr ''G-${g()}'')"
  "extract_variables empty_env (PStr ''G-${g()}'') = []"
  by code_simp+

lemma failing_pass_parts:
  "extract_functions (PStr (strip ''$nope${f()}${nofn()}'')) = [''f()'', ''nofn()'']"
  "function_value empty_env rescan_parser 2 ''f()'' = Some (Inr (PStr ''$y''))"
  "splice_functions (zip (take 1 (extract_functions (PStr (strip ''$nope${f()}${nofn()}''))))
                       [PStr ''$y''])
     (PStr (strip ''$nope${f()}${nofn()}'')) = Inr (PStr ''$nope$y${nofn()}'')"
  "function_value empty_env rescan_parser 2
     (extract_functions (PStr (strip ''$nope${f()}${nofn()}'')) ! 1)
     = Some (Inl (ParamsError ''nofn is not defined in bind functions!''))"
  "bound_variables rescan_parser ''nope'' = None"
  by code_simp+

theorem function_pass_then_variable_pass_over_result_witness:
  "eval_content_with_bindings empty_env rescan_parser (Suc 2) (PStr ''x${f()}'')
     = Some (Inr (PStr ''xZ''))
   \<and> eval_content_with_bindings empty_env chain_parser (Suc 2) (PStr ''${f()}-${g()}'')
     = Some (Inr (PStr ''G-${g()}''))
   \<and> eval_content_with_bindings empty_env rescan_parser (Suc 2) (PStr ''$nope${f()}${nofn()}'')
     = Some (Inl (ParamsError ''nofn is not defined in bind functions!''))"
proof -
  note t1 = function_pass_then_variable_pass_over_result
      [where e = empty_env and p = rescan_parser and n = 2 and s = "''x${f()}''"
         and vs = "[PStr ''$y'']" and c = "PStr ''x$y''" and ws = "[PStr ''Z'']"]
  note t2 = function_pass_then_variable_pass_over_result
      [where e = empty_env and p = chain_parser and n = 2 and s = "''${f()}-${g()}''"
         and vs = "[PStr ''${g()}'', PStr ''G'']" and c = "PStr ''G-${g()}''" and ws = "[]"]
  note t3 = function_pass_then_variable_pass_over_result
      [where e = empty_env and p = rescan_parser and n = 2 and s = "''$nope${f()}${nofn()}''"
         and k = 1 and vs = "[PStr ''$y'']" and c = "PStr ''$nope$y${nofn()}''"
         and err = "ParamsError ''nofn is not defined in bind functions!''"]
  have f1: "list_all2 (\<lambda>g v. function_value empty_env rescan_parser 2 g = Some (Inr v))
              (extract_functions (PStr (strip ''x${f()}''))) [PStr ''$y'']"
    unfolding rescan_pass_parts(1) by (simp add: rescan_pass_parts(2))
  have v1: "list_all2 (\<lambda>x w. bound_variables rescan_parser x = Some w)
              (extract_variables empty_env (PStr ''x$y'')) [PStr ''Z'']"
    unfolding rescan_pass_parts(4) by (simp add: rescan_pass_parts(5))
  from t1 f1 v1 rescan_pass_parts(3)
  have "eval_content_with_bindings empty_env rescan_parser (Suc 2) (PStr ''x${f()}'')
          = Some (splice_variables (zip (extract_variables empty_env (PStr ''x$y''))
                                      [PStr ''Z'']) (PStr ''x$y''))"
    by blast
  then have a: "eval_content_with_bindings empty_env rescan_parser (Suc 2) (PStr ''x${f()}'')
     = Some (Inr (PStr ''xZ''))"
    by (simp only: rescan_pass_parts(6))
  have f2: "list_all2 (\<lambda>g v. function_value empty_env chain_parser 2 g = Some (Inr v))
              (extract_functions (PStr (strip ''${f()}-${g()}'')))
              [PStr ''${g()}'', PStr ''G'']"
    unfolding chain_pass_parts(1) by (simp add: chain_pass_parts(2,3))
  have v2: "list_all2 (\<lambda>x w. bound_variables chain_parser x = Some w)
              (extract_variables empty_env (PStr ''G-${g()}'')) []"
    unfolding chain_pass_parts(5) by simp
  from t2 f2 v2 chain_pass_parts(4)
  have "eval_content_with_bindings empty_env chain_parser (Suc 2) (PStr ''${f()}-${g()}'')
          = Some (splice_variables (zip (extract_variables empty_env (PStr ''G-${g()}'')) [])
                    (PStr ''G-${g()}''))"
    by blast
  then have b: "eval_content_with_bindings empty_env chain_parser (Suc 2)
                  (PStr ''${f()}-${g()}'') = Some (Inr (PStr ''G-${g()}''))"
    unfolding chain_pass_parts(5) by simp
  have k3: "1 < length (extract_functions (PStr (strip ''$nope${f()}${nofn()}'')))"
    unfolding failing_pass_parts(1) by simp
  have f3: "list_all2 (\<lambda>g v. function_value empty_env rescan_parser 2 g = Some (Inr v))
              (take 1 (extract_functions (PStr (strip ''$nope${f()}${nofn()}''))))
              [PStr ''$y'']"
    unfolding failing_pass_parts(1) by (simp add: failing_pass_parts(2))
  from t3 k3 f3 failing_pass_parts(3,4)
  have c: "eval_content_with_bindings empty_env rescan_parser (Suc 2)
             (PStr ''$nope${f()}${nofn()}'')
           = Some (Inl (ParamsError ''nofn is not defined in bind functions!''))"
    by blast
  from a b c show ?thesis by blast
qed

section \<open>Properties of the parameter expander\<close>














section \<open>Properties of the reference resolver\<close>

lemma py_eq_refl: "py_eq v v"
proof (induction v)
  case (PList xs)
  then show ?case by (simp add: list_all2_same)
next
  case (PTuple xs)
  then show ?case by (simp add: list_all2_same)
next
  case (PDict d)
  then show ?case by (fastforce simp: list_all_iff list_ex_iff)
qed simp_all

lemma args_mapping_loop_errors:
  "args_mapping_loop call_args def_items i acc = Inl err \<Longrightarrow> err = IndexError \<or> err = TypeError"
  by (induction call_args def_items i acc rule: args_mapping_loop.induct)
     (auto simp: ebind_def dict_setitem_def split: if_splits sum.splits)

lemma args_mapping_loop_equal:
  "list_all2 py_eq (drop i call_args) def_items \<Longrightarrow>
     args_mapping_loop call_args def_items i acc = Inr acc"
proof (induction def_items arbitrary: i)
  case Nil
  show ?case by simp
next
  case (Cons item rest)
  from Cons.prems obtain c cs where d: "drop i call_args = c # cs" and c: "py_eq c item"
    and r: "list_all2 py_eq cs rest"
    by (auto simp: list_all2_Cons2)
  from d have lt: "i < length call_args" by (metis drop_all list.simps(3) not_le)
  from d lt have ci: "call_args ! i = c" by (metis nth_via_drop)
  from d have "drop (Suc i) call_args = cs" by (metis drop_Suc tl_drop list.sel(3))
  with r Cons.IH[of "Suc i"] have "args_mapping_loop call_args rest (Suc i) acc = Inr acc"
    by simp
  with lt ci c show ?case by simp
qed

lemma get_block_by_name_resolved:
  assumes "parse_function e ref_call = Inr meta"
    and "get_test_definition dd (func_name meta) ref_type = Inr block"
    and "py_get_str block ''function_meta'' PNone = Inr block_meta"
    and "py_get_str block_meta ''args'' (PList []) = Inr (PList def_args)"
  shows "get_block_by_name e dd ref_call ref_type =
           (if length (args meta) \<noteq> length def_args then Inl mismatch
            else ebind (args_mapping_loop (args meta) def_args 0 []) (\<lambda>args_mapping.
                   if args_mapping \<noteq> []
                   then substitute_variables_with_mapping e block args_mapping
                   else Inr block))"
  using assms by (simp add: get_block_by_name_def ebind_def)

text \<open>
  Claim C3. Let the call parse, let the registry hold a block under the parsed name for
  the reference type (api or suite), and let the block's \<^verbatim>\<open>function_meta\<close> declare the
  parameters \<open>def_args\<close>. When the number of positional arguments of the call differs
  from the number of declared parameters, \<^verbatim>\<open>_get_block_by_name\<close> raises the
  \<^verbatim>\<open>ParamsError\<close> with the message \<^verbatim>\<open>call args mismatch defined args!\<close>. When the two
  numbers are equal, the result is that of the renaming: the block itself or what the
  substitution returns; it is not this error unless the substitution raises it.
\<close>

theorem arg_count_mismatch_is_params_error:
  assumes "parse_function e ref_call = Inr meta"
    and "get_test_definition dd (func_name meta) ref_type = Inr block"
    and "py_get_str block ''function_meta'' PNone = Inr block_meta"
    and "py_get_str block_meta ''args'' (PList []) = Inr (PList def_args)"
  shows "(length (args meta) \<noteq> length def_args \<longrightarrow>
            get_block_by_name e dd ref_call ref_type
              = Inl (ParamsError ''call args mismatch defined args!''))
       \<and> (length (args meta) = length def_args \<longrightarrow>
            get_block_by_name e dd ref_call ref_type =
              ebind (args_mapping_loop (args meta) def_args 0 []) (\<lambda>args_mapping.
                if args_mapping \<noteq> []
                then substitute_variables_with_mapping e block args_mapping
                else Inr block))
       \<and> (length (args meta) = length def_args
            \<and> (\<forall>m. substitute_variables_with_mapping e block m
                      \<noteq> Inl (ParamsError ''call args mismatch defined args!''))
            \<longrightarrow> get_block_by_name e dd ref_call ref_type
                  \<noteq> Inl (ParamsError ''call args mismatch defined args!''))"
proof -
  note r = get_block_by_name_resolved[OF assms]
  have a: "length (args meta) \<noteq> length def_args \<longrightarrow>
            get_block_by_name e dd ref_call ref_type
              = Inl (ParamsError ''call args mismatch defined args!'')"
    using r by (simp add: mismatch_def)
  have b: "length (args meta) = length def_args \<longrightarrow>
            get_block_by_name e dd ref_call ref_type =
              ebind (args_mapping_loop (args meta) def_args 0 []) (\<lambda>args_mapping.
                if args_mapping \<noteq> []
                then substitute_variables_with_mapping e block args_mapping
                else Inr block)"
    using r by simp
  have c: "get_block_by_name e dd ref_call ref_type
                  \<noteq> Inl (ParamsError ''call args mismatch defined args!'')"
    if l: "length (args meta) = length def_args"
      and s: "\<forall>m. substitute_variables_with_mapping e block m
                      \<noteq> Inl (ParamsError ''call args mismatch defined args!'')"
  proof (cases "args_mapping_loop (args meta) def_args 0 []")
    case (Inl err)
    then have "err = IndexError \<or> err = TypeError" by (rule args_mapping_loop_errors)
    then show ?thesis using b l Inl by (auto simp: ebind_def)
  next
    case (Inr m)
    then show ?thesis using b l s by (auto simp: ebind_def)
  qed
  from a b c show ?thesis by blast
qed

lemma login_parts:
  "parse_function empty_env (PStr ''login($u)'')
     = Inr \<lparr>func_name = ''login'', args = [PStr ''$u''], kwargs = []\<rparr>"
  "parse_function empty_env (PStr ''login($user, $pw)'')
     = Inr \<lparr>func_name = ''login'', args = [PStr ''$user'', PStr ''$pw''], kwargs = []\<rparr>"
  "get_test_definition example_defs ''login'' ''api'' = Inr login_block"
  "py_get_str login_block ''function_meta'' PNone
     = Inr (meta_value \<lparr>func_name = ''login'', args = [PStr ''$user'', PStr ''$pw''],
                         kwargs = []\<rparr>)"
  "py_get_str (meta_value \<lparr>func_name = ''login'', args = [PStr ''$user'', PStr ''$pw''],
                            kwargs = []\<rparr>) ''args'' (PList [])
     = Inr (PList [PStr ''$user'', PStr ''$pw''])"
  by code_simp+

theorem arg_count_mismatch_is_params_error_witness:
  "get_block_by_name empty_env example_defs (PStr ''login($u)'') ''api''
     = Inl (ParamsError ''call args mismatch defined args!'')"
proof -
  have g: "get_test_definition example_defs
             (func_name \<lparr>func_name = ''login'', args = [PStr ''$u''], kwargs = []\<rparr>) ''api''
             = Inr login_block"
    using login_parts(3) by simp
  have m: "length (args \<lparr>func_name = ''login'', args = [PStr ''$u''], kwargs = []\<rparr>)
       \<noteq> length [PStr ''$user'', PStr ''$pw'']"
    by simp
  from arg_count_mismatch_is_params_error
         [where e = empty_env and dd = example_defs and ref_call = "PStr ''login($u)''"
            and ref_type = "''api''" and block = login_block,
          OF login_parts(1) g login_parts(4) login_parts(5)] m
  show ?thesis by blast
qed

text \<open>
  Claim C4. Under the same conditions, when every positional argument of the call equals
  the declared parameter at its position, and so above all when the two lists are
  identical, \<^verbatim>\<open>_get_block_by_name\<close> returns the block that the registry holds under
  the name, whatever \<^verbatim>\<open>substitute_variables_with_mapping\<close> would do: the substitution
  is not called. The function has the registry as an argument only and returns no new
  registry, so nothing stored is changed. Values stand for objects here: that the
  result is the stored object is the equality of the two values.
\<close>

theorem identical_args_return_stored_block:
  assumes "parse_function e ref_call = Inr meta"
    and "get_test_definition dd (func_name meta) ref_type = Inr block"
    and "py_get_str block ''function_meta'' PNone = Inr block_meta"
    and "py_get_str block_meta ''args'' (PList []) = Inr (PList def_args)"
  shows "dict_get (defs_of dd ref_type) (PStr (func_name meta)) = Some block
       \<and> (list_all2 py_eq (args meta) def_args \<longrightarrow>
            (\<forall>f. get_block_by_name (e\<lparr>substitute_variables_with_mapping := f\<rparr>)
                    dd ref_call ref_type = Inr block))
       \<and> (args meta = def_args \<longrightarrow> list_all2 py_eq (args meta) def_args)"
proof -
  have a: "dict_get (defs_of dd ref_type) (PStr (func_name meta)) = Some block"
    using assms(2) by (auto simp: get_test_definition_def split: option.splits if_splits)
  have b: "get_block_by_name (e\<lparr>substitute_variables_with_mapping := f\<rparr>)
                    dd ref_call ref_type = Inr block"
    if h: "list_all2 py_eq (args meta) def_args" for f
  proof -
    have p: "parse_function (e\<lparr>substitute_variables_with_mapping := f\<rparr>) ref_call = Inr meta"
      using assms(1) by simp
    have l: "length (args meta) = length def_args" using h by (rule list_all2_lengthD)
    have "args_mapping_loop (args meta) def_args 0 [] = Inr []"
      using h by (simp add: args_mapping_loop_equal)
    with get_block_by_name_resolved[OF p assms(2-4)] l show ?thesis
      by (simp add: ebind_def)
  qed
  have c: "args meta = def_args \<longrightarrow> list_all2 py_eq (args meta) def_args"
    by (simp add: list_all2_same py_eq_refl)
  from a b c show ?thesis by blast
qed

theorem identical_args_return_stored_block_witness:
  "get_block_by_name (empty_env\<lparr>substitute_variables_with_mapping := (\<lambda>c m. Inl TypeError)\<rparr>)
     example_defs (PStr ''login($user, $pw)'') ''api'' = Inr login_block"
proof -
  have g: "get_test_definition example_defs
             (func_name \<lparr>func_name = ''login'', args = [PStr ''$user'', PStr ''$pw''],
                          kwargs = []\<rparr>) ''api''
             = Inr login_block"
    using login_parts(3) by simp
  have m: "args \<lparr>func_name = ''login'', args = [PStr ''$user'', PStr ''$pw''], kwargs = []\<rparr>
       = [PStr ''$user'', PStr ''$pw'']"
    by simp
  from identical_args_return_stored_block
         [where e = empty_env and dd = example_defs and ref_call = "PStr ''login($user, $pw)''"
            and ref_type = "''api''" and block = login_block,
          OF login_parts(2) g login_parts(4) login_parts(5)] m
  show ?thesis by blast
qed

section \<open>Properties of the testset assembler\<close>















section \<open>Properties of the testcase loader\<close>

subsection \<open>The cache and the loop\<close>

lemma map_of_cache_set: "map_of (cache_set c k v) = (map_of c)(k \<mapsto> v)"
  by (induction c k v rule: cache_set.induct) auto

lemma load_testcases_hit:
  "map_of cache (abspath e path) = Some r \<Longrightarrow>
     load_testcases e dd (Suc n) (PathOne path) cache = Some (Inr r, cache)"
  by simp

lemma load_testcases_stored:
  assumes "load_testcases e dd n (PathOne path) cache = Some (Inr r, cache')"
  shows "map_of cache' (abspath e path) = Some r"
proof (cases n)
  case 0
  with assms show ?thesis by simp
next
  case (Suc m)
  with assms show ?thesis
    by (auto simp: sbind_def map_of_cache_set
             split: option.splits if_splits sum.splits prod.splits)
qed

lemma load_testcases_keeps_entries:
  "load_testcases e dd n parg cache = Some (res, cache') \<Longrightarrow>
     map_of cache k = Some v \<Longrightarrow> map_of cache' k = Some v"
  "load_testcases_loop e dd n paths acc cache = Some (res, cache') \<Longrightarrow>
     map_of cache k = Some v \<Longrightarrow> map_of cache' k = Some v"
proof (induction e dd n parg cache and e dd n paths acc cache
         arbitrary: res cache' and res cache'
         rule: load_testcases_load_testcases_loop.induct)
  case (1 e dd path cache)
  then show ?case by simp
next
  case (2 e dd n paths cache)
  then show ?case by simp
next
  case (3 e dd n path cache)
  show ?case
  proof (cases "map_of cache (abspath e path)")
    case (Some r)
    with "3.prems" show ?thesis by simp
  next
    case None
    show ?thesis
    proof (cases "isdir e (abspath e path)")
      case True
      with None "3.prems"(1) obtain r c1 where
        inner: "load_testcases e dd n
                  (PathMany (load_folder_files e (PathOne (abspath e path)) True)) cache
                = Some (r, c1)"
        by (auto simp: sbind_def split: option.splits)
      from "3.IH"[OF None True inner "3.prems"(2)] have k1: "map_of c1 k = Some v" .
      from None "3.prems"(2) have ne: "k \<noteq> abspath e path" by auto
      from None True "3.prems"(1) inner have
        "cache' = c1 \<or> (\<exists>tl. cache' = cache_set c1 (abspath e path) tl)"
        by (auto simp: sbind_def split: sum.splits)
      with k1 ne show ?thesis by (auto simp: map_of_cache_set)
    next
      case False
      from None "3.prems"(2) have ne: "k \<noteq> abspath e path" by auto
      from None False "3.prems"(1) have
        "cache' = cache \<or> (\<exists>tl. cache' = cache_set cache (abspath e path) tl)"
        by (auto split: if_splits sum.splits)
      with "3.prems"(2) ne show ?thesis by (auto simp: map_of_cache_set)
    qed
  qed
next
  case (4 e dd n testcases_list cache)
  then show ?case by simp
next
  case (5 e dd n item_path rest testcases_list cache)
  from "5.prems"(1) obtain r c1 where
    first: "load_testcases e dd n (PathOne item_path) cache = Some (r, c1)"
    by (auto simp: sbind_def split: option.splits)
  from "5.IH"(1)[OF first "5.prems"(2)] have k1: "map_of c1 k = Some v" .
  show ?case
  proof (cases r)
    case (Inl err)
    with first "5.prems"(1) have "cache' = c1" by (simp add: sbind_def)
    with k1 show ?thesis by simp
  next
    case (Inr tcs)
    with first "5.prems"(1) have
      "load_testcases_loop e dd n rest
         (if tcs = [] then testcases_list else testcases_list @ tcs) c1 = Some (res, cache')"
      by (simp add: sbind_def)
    from "5.IH"(2)[OF first[unfolded Inr] this k1] show ?thesis .
  qed
qed

lemma load_testcases_loop_append:
  "load_testcases_loop e dd n (ps @ qs) acc cache =
     sbind (load_testcases_loop e dd n ps acc cache)
       (\<lambda>acc' cache'. load_testcases_loop e dd n qs acc' cache')"
proof (induction ps arbitrary: acc cache)
  case Nil
  show ?case by (simp add: sbind_def)
next
  case (Cons p ps)
  show ?case
    by (cases "load_testcases e dd n (PathOne p) cache")
       (auto simp: sbind_def Cons.IH split: sum.splits prod.splits)
qed

lemma load_testcases_of_file_format_error:
  "load_test_file e dd path = Inl (FileFormatError m) \<Longrightarrow> load_testcases_of_file e dd path = Inr []"
  by (simp add: load_testcases_of_file_def ebind_def)

lemma load_testcases_of_file_other_error:
  "load_test_file e dd path = Inl err \<Longrightarrow> (\<forall>m. err \<noteq> FileFormatError m) \<Longrightarrow>
     load_testcases_of_file e dd path = Inl err"
  by (cases err) (simp_all add: load_testcases_of_file_def ebind_def)

subsection \<open>Exceptions of one file in a batch\<close>

lemma load_testcases_of_file_no_format_error:
  "load_testcases_of_file e dd path \<noteq> Inl (FileFormatError m)"
  by (auto simp: load_testcases_of_file_def split: sum.splits error.splits)

lemma load_testcases_no_format_error:
  "load_testcases e dd n parg cache \<noteq> Some (Inl (FileFormatError m), cache')"
  "load_testcases_loop e dd n paths acc cache \<noteq> Some (Inl (FileFormatError m), cache')"
proof (induction e dd n parg cache and e dd n paths acc cache
         arbitrary: cache' and cache'
         rule: load_testcases_load_testcases_loop.induct)
  case (1 e dd path cache)
  show ?case by simp
next
  case (2 e dd n paths cache)
  then show ?case by simp
next
  case (3 e dd n path cache)
  show ?case
  proof (cases "map_of cache (abspath e path)")
    case (Some r)
    then show ?thesis by simp
  next
    case None
    show ?thesis
    proof (cases "isdir e (abspath e path)")
      case True
      with None "3.IH" show ?thesis
        by (auto simp: sbind_def split: option.splits sum.splits prod.splits)
    next
      case False
      with None load_testcases_of_file_no_format_error[of e dd "abspath e path" m]
      show ?thesis by (auto split: sum.splits)
    qed
  qed
next
  case (4 e dd n testcases_list cache)
  show ?case by simp
next
  case (5 e dd n item_path rest testcases_list cache)
  show ?case
  proof (cases "load_testcases e dd n (PathOne item_path) cache")
    case None
    then show ?thesis by (simp add: sbind_def)
  next
    case (Some rc)
    obtain r c1 where rc: "rc = (r, c1)" by (cases rc)
    show ?thesis
    proof (cases r)
      case (Inl err)
      with Some rc "5.IH"(1)[of c1] show ?thesis by (auto simp: sbind_def)
    next
      case (Inr tcs)
      with Some rc "5.IH"(2)[of tcs c1] show ?thesis by (simp add: sbind_def)
    qed
  qed
qed

lemma load_testcases_file_format_error:
  assumes "map_of cache (abspath e p) = None" "\<not> isdir e (abspath e p)" "isfile e (abspath e p)"
    and "load_test_file e dd (abspath e p) = Inl (FileFormatError m)"
  shows "load_testcases e dd (Suc n) (PathOne p) cache
           = Some (Inr [], cache_set cache (abspath e p) [])"
  using assms by (simp add: load_testcases_of_file_format_error)

lemma load_testcases_file_other_error:
  assumes "map_of cache (abspath e p) = None" "\<not> isdir e (abspath e p)" "isfile e (abspath e p)"
    and "load_test_file e dd (abspath e p) = Inl err" "\<forall>m. err \<noteq> FileFormatError m"
  shows "load_testcases e dd (Suc n) (PathOne p) cache = Some (Inl err, cache)"
  using assms by (simp add: load_testcases_of_file_other_error)

lemma load_testcases_loop_after:
  assumes "load_testcases_loop e dd n pre acc_in cache_in = Some (Inr acc, cache)"
  shows "load_testcases_loop e dd n (pre @ p # rest) acc_in cache_in =
           sbind (load_testcases e dd n (PathOne p) cache) (\<lambda>testcases cache'.
             load_testcases_loop e dd n rest
               (if testcases = [] then acc else acc @ testcases) cache')"
  by (simp add: load_testcases_loop_append assms sbind_def)

text \<open>
  Claim C8. In a batch of paths, whether the list given to \<^verbatim>\<open>load_testcases\<close> or the
  files of a folder, the paths before \<open>p\<close> have been loaded. When \<open>p\<close> is a file that is
  not in the cache and \<^verbatim>\<open>load_test_file\<close> raises \<^verbatim>\<open>FileFormatError\<close> on it, the call for
  \<open>p\<close> returns the empty list, which is cached, and the batch goes on with the paths
  after \<open>p\<close> and the testcases collected so far. When \<^verbatim>\<open>load_test_file\<close> raises any other
  exception, or \<open>p\<close> is neither a folder nor a file (\<^verbatim>\<open>FileNotFound\<close>), the exception is
  that of the call and of the whole batch, and the paths after \<open>p\<close> are not loaded. In
  general an exception of the call for one path is the exception of the batch, and the
  exception of the batch of a folder is that of the call for the folder. No call of
  \<^verbatim>\<open>load_testcases\<close> raises \<^verbatim>\<open>FileFormatError\<close>.
\<close>

theorem format_error_skips_file_other_errors_raised:
  "(load_testcases_loop e dd (Suc n) pre acc_in cache_in = Some (Inr acc, cache)
      \<and> map_of cache (abspath e p) = None \<and> \<not> isdir e (abspath e p) \<and> isfile e (abspath e p)
      \<and> load_test_file e dd (abspath e p) = Inl (FileFormatError m)
    \<longrightarrow> load_testcases e dd (Suc n) (PathOne p) cache
          = Some (Inr [], cache_set cache (abspath e p) [])
        \<and> load_testcases_loop e dd (Suc n) (pre @ p # rest) acc_in cache_in
          = load_testcases_loop e dd (Suc n) rest acc (cache_set cache (abspath e p) []))
   \<and> (load_testcases_loop e dd (Suc n) pre acc_in cache_in = Some (Inr acc, cache)
      \<and> map_of cache (abspath e p) = None \<and> \<not> isdir e (abspath e p) \<and> isfile e (abspath e p)
      \<and> load_test_file e dd (abspath e p) = Inl err \<and> (\<forall>m. err \<noteq> FileFormatError m)
    \<longrightarrow> load_testcases e dd (Suc n) (PathOne p) cache = Some (Inl err, cache)
        \<and> load_testcases_loop e dd (Suc n) (pre @ p # rest) acc_in cache_in = Some (Inl err, cache))
   \<and> (load_testcases_loop e dd (Suc n) pre acc_in cache_in = Some (Inr acc, cache)
      \<and> map_of cache (abspath e p) = None \<and> \<not> isdir e (abspath e p) \<and> \<not> isfile e (abspath e p)
    \<longrightarrow> load_testcases e dd (Suc n) (PathOne p) cache
          = Some (Inl (FileNotFound (''file not found: '' @ abspath e p)), cache)
        \<and> load_testcases_loop e dd (Suc n) (pre @ p # rest) acc_in cache_in
          = Some (Inl (FileNotFound (''file not found: '' @ abspath e p)), cache))
   \<and> (load_testcases_loop e dd k pre acc_in cache_in = Some (Inr acc, cache)
      \<and> load_testcases e dd k (PathOne p) cache = Some (Inl err, cache')
    \<longrightarrow> load_testcases_loop e dd k (pre @ p # rest) acc_in cache_in = Some (Inl err, cache'))
   \<and> (load_testcases_loop e dd k pre acc_in cache_in = Some (Inr acc, cache)
      \<and> load_testcases e dd k (PathOne p) cache = Some (Inr testcases, cache')
    \<longrightarrow> load_testcases_loop e dd k (pre @ p # rest) acc_in cache_in
          = load_testcases_loop e dd k rest (acc @ testcases) cache')
   \<and> load_testcases e dd (Suc n) (PathMany paths) cache
       = load_testcases_loop e dd n (set_iter e paths) [] cache
   \<and> (map_of cache (abspath e p) = None \<and> isdir e (abspath e p)
    \<longrightarrow> (load_testcases_loop e dd n
            (set_iter e (load_folder_files e (PathOne (abspath e p)) True)) [] cache
            = Some (Inl err, cache')
          \<longrightarrow> load_testcases e dd (Suc (Suc n)) (PathOne p) cache = Some (Inl err, cache'))
        \<and> (load_testcases_loop e dd n
            (set_iter e (load_folder_files e (PathOne (abspath e p)) True)) [] cache
            = Some (Inr testcases_list, cache')
          \<longrightarrow> load_testcases e dd (Suc (Suc n)) (PathOne p) cache
              = Some (Inr testcases_list, cache_set cache' (abspath e p) testcases_list)))
   \<and> load_testcases e dd k parg cache \<noteq> Some (Inl (FileFormatError m), cache')
   \<and> load_testcases_loop e dd k paths acc_in cache \<noteq> Some (Inl (FileFormatError m), cache')"
proof -
  have a: "load_testcases e dd (Suc n) (PathOne p) cache
          = Some (Inr [], cache_set cache (abspath e p) [])
        \<and> load_testcases_loop e dd (Suc n) (pre @ p # rest) acc_in cache_in
          = load_testcases_loop e dd (Suc n) rest acc (cache_set cache (abspath e p) [])"
    if h: "load_testcases_loop e dd (Suc n) pre acc_in cache_in = Some (Inr acc, cache)"
      "map_of cache (abspath e p) = None" "\<not> isdir e (abspath e p)" "isfile e (abspath e p)"
      "load_test_file e dd (abspath e p) = Inl (FileFormatError m)"
  proof -
    note one = load_testcases_file_format_error[OF h(2-5), of n]
    show ?thesis
      unfolding load_testcases_loop_after[OF h(1)] one by (simp add: sbind_def)
  qed
  have b: "load_testcases e dd (Suc n) (PathOne p) cache = Some (Inl err, cache)
        \<and> load_testcases_loop e dd (Suc n) (pre @ p # rest) acc_in cache_in = Some (Inl err, cache)"
    if h: "load_testcases_loop e dd (Suc n) pre acc_in cache_in = Some (Inr acc, cache)"
      "map_of cache (abspath e p) = None" "\<not> isdir e (abspath e p)" "isfile e (abspath e p)"
      "load_test_file e dd (abspath e p) = Inl err" "\<forall>m. err \<noteq> FileFormatError m"
  proof -
    note one = load_testcases_file_other_error[OF h(2-6), of n]
    show ?thesis
      unfolding load_testcases_loop_after[OF h(1)] one by (simp add: sbind_def)
  qed
  have c: "load_testcases e dd (Suc n) (PathOne p) cache
          = Some (Inl (FileNotFound (''file not found: '' @ abspath e p)), cache)
        \<and> load_testcases_loop e dd (Suc n) (pre @ p # rest) acc_in cache_in
          = Some (Inl (FileNotFound (''file not found: '' @ abspath e p)), cache)"
    if h: "load_testcases_loop e dd (Suc n) pre acc_in cache_in = Some (Inr acc, cache)"
      "map_of cache (abspath e p) = None" "\<not> isdir e (abspath e p)" "\<not> isfile e (abspath e p)"
  proof -
    have one: "load_testcases e dd (Suc n) (PathOne p) cache
          = Some (Inl (FileNotFound (''file not found: '' @ abspath e p)), cache)"
      using h(2-4) by simp
    show ?thesis
      unfolding load_testcases_loop_after[OF h(1)] one by (simp add: sbind_def)
  qed
  have g: "load_testcases_loop e dd k (pre @ p # rest) acc_in cache_in = Some (Inl err, cache')"
    if h: "load_testcases_loop e dd k pre acc_in cache_in = Some (Inr acc, cache)"
      "load_testcases e dd k (PathOne p) cache = Some (Inl err, cache')"
    unfolding load_testcases_loop_after[OF h(1)] h(2) by (simp add: sbind_def)
  have i: "load_testcases_loop e dd k (pre @ p # rest) acc_in cache_in
          = load_testcases_loop e dd k rest (acc @ testcases) cache'"
    if h: "load_testcases_loop e dd k pre acc_in cache_in = Some (Inr acc, cache)"
      "load_testcases e dd k (PathOne p) cache = Some (Inr testcases, cache')"
    unfolding load_testcases_loop_after[OF h(1)] h(2) by (simp add: sbind_def)
  have d: "load_testcases e dd (Suc n) (PathMany paths) cache
       = load_testcases_loop e dd n (set_iter e paths) [] cache"
    by simp
  have f: "(load_testcases_loop e dd n
            (set_iter e (load_folder_files e (PathOne (abspath e p)) True)) [] cache
            = Some (Inl err, cache')
          \<longrightarrow> load_testcases e dd (Suc (Suc n)) (PathOne p) cache = Some (Inl err, cache'))
        \<and> (load_testcases_loop e dd n
            (set_iter e (load_folder_files e (PathOne (abspath e p)) True)) [] cache
            = Some (Inr testcases_list, cache')
          \<longrightarrow> load_testcases e dd (Suc (Suc n)) (PathOne p) cache
              = Some (Inr testcases_list, cache_set cache' (abspath e p) testcases_list))"
    if "map_of cache (abspath e p) = None" "isdir e (abspath e p)"
    using that by (simp add: sbind_def)
  show ?thesis
    using a b c g i d f load_testcases_no_format_error(1)[of e dd k parg cache m cache']
      load_testcases_no_format_error(2)[of e dd k paths acc_in cache m cache']
    by blast
qed

text \<open>
  The folder \<^verbatim>\<open>/t\<close>: the file \<^verbatim>\<open>/t/a.yml\<close> adds nothing and the testset of \<^verbatim>\<open>/t/s.json\<close>
  is loaded after it. The list of \<^verbatim>\<open>/t/a.yml\<close>, \<^verbatim>\<open>/c.yml\<close> and \<^verbatim>\<open>/t/s.json\<close>: the
  \<^verbatim>\<open>ApiNotFound\<close> of \<^verbatim>\<open>/c.yml\<close> ends the batch.
\<close>

lemma batch_folder_parts:
  "load_testcases_loop batch_env example_defs (Suc 0) [] [] [] = Some (Inr [], [])"
  "map_of [] (abspath batch_env ''/t/a.yml'') = None"
  "\<not> isdir batch_env (abspath batch_env ''/t/a.yml'')"
  "isfile batch_env (abspath batch_env ''/t/a.yml'')"
  "load_test_file batch_env example_defs (abspath batch_env ''/t/a.yml'')
     = Inl (FileFormatError ''Testcase format error: /t/a.yml'')"
  "load_testcases_loop batch_env example_defs (Suc 0) [''/t/s.json''] []
     (cache_set [] (abspath batch_env ''/t/a.yml'') [])
     = Some (Inr [suite_testset ''/t/s.json''],
             [(''/t/a.yml'', []), (''/t/s.json'', [suite_testset ''/t/s.json''])])"
  "set_iter batch_env (load_folder_files batch_env (PathOne (abspath batch_env ''/t'')) True)
     = [] @ ''/t/a.yml'' # [''/t/s.json'']"
  "map_of [] (abspath batch_env ''/t'') = None"
  "isdir batch_env (abspath batch_env ''/t'')"
  "cache_set [(''/t/a.yml'', []), (''/t/s.json'', [suite_testset ''/t/s.json''])]
     (abspath batch_env ''/t'') [suite_testset ''/t/s.json'']
     = [(''/t/a.yml'', []), (''/t/s.json'', [suite_testset ''/t/s.json'']),
        (''/t'', [suite_testset ''/t/s.json''])]"
  by code_simp+

lemma batch_error_parts:
  "load_testcases_loop batch_env example_defs (Suc 0) [''/t/a.yml''] [] []
     = Some (Inr [], [(''/t/a.yml'', [])])"
  "map_of [(''/t/a.yml'', [])] (abspath batch_env ''/c.yml'') = None"
  "\<not> isdir batch_env (abspath batch_env ''/c.yml'')"
  "isfile batch_env (abspath batch_env ''/c.yml'')"
  "load_test_file batch_env example_defs (abspath batch_env ''/c.yml'')
     = Inl (ApiNotFound ''nope not found!'')"
  "set_iter batch_env [''/t/a.yml'', ''/c.yml'', ''/t/s.json'']
     = [''/t/a.yml''] @ ''/c.yml'' # [''/t/s.json'']"
  by code_simp+

theorem format_error_skips_file_other_errors_raised_witness:
  "load_testcases batch_env example_defs (Suc (Suc (Suc 0))) (PathOne ''/t'') []
     = Some (Inr [suite_testset ''/t/s.json''],
             [(''/t/a.yml'', []), (''/t/s.json'', [suite_testset ''/t/s.json'']),
              (''/t'', [suite_testset ''/t/s.json''])])
   \<and> load_testcases batch_env example_defs (Suc (Suc 0))
       (PathMany [''/t/a.yml'', ''/c.yml'', ''/t/s.json'']) []
     = Some (Inl (ApiNotFound ''nope not found!''), [(''/t/a.yml'', [])])"
proof -
  note t1 = format_error_skips_file_other_errors_raised
      [where e = batch_env and dd = example_defs and n = 0 and pre = "[]" and acc_in = "[]"
         and cache_in = "[]" and acc = "[]" and cache = "[]" and p = "''/t/a.yml''"
         and m = "''Testcase format error: /t/a.yml''" and rest = "[''/t/s.json'']"]
  note t2 = format_error_skips_file_other_errors_raised
      [where e = batch_env and dd = example_defs and n = "Suc 0" and cache = "[]"
         and p = "''/t''" and testcases_list = "[suite_testset ''/t/s.json'']"
         and cache' = "[(''/t/a.yml'', []), (''/t/s.json'', [suite_testset ''/t/s.json''])]"]
  note t3 = format_error_skips_file_other_errors_raised
      [where e = batch_env and dd = example_defs and n = 0 and pre = "[''/t/a.yml'']"
         and acc_in = "[]" and cache_in = "[]" and acc = "[]" and cache = "[(''/t/a.yml'', [])]"
         and p = "''/c.yml''" and err = "ApiNotFound ''nope not found!''"
         and rest = "[''/t/s.json'']"]
  note t4 = format_error_skips_file_other_errors_raised
      [where e = batch_env and dd = example_defs and n = "Suc 0" and cache = "[]"
         and paths = "[''/t/a.yml'', ''/c.yml'', ''/t/s.json'']"]
  from t1 batch_folder_parts(1-5)
  have "load_testcases_loop batch_env example_defs (Suc 0) ([] @ ''/t/a.yml'' # [''/t/s.json''])
          [] []
        = load_testcases_loop batch_env example_defs (Suc 0) [''/t/s.json''] []
            (cache_set [] (abspath batch_env ''/t/a.yml'') [])"
    by blast
  then have "load_testcases_loop batch_env example_defs (Suc 0)
          (set_iter batch_env
             (load_folder_files batch_env (PathOne (abspath batch_env ''/t'')) True)) [] []
        = Some (Inr [suite_testset ''/t/s.json''],
                [(''/t/a.yml'', []), (''/t/s.json'', [suite_testset ''/t/s.json''])])"
    by (simp only: batch_folder_parts(6,7))
  with t2 batch_folder_parts(8,9)
  have "load_testcases batch_env example_defs (Suc (Suc (Suc 0))) (PathOne ''/t'') []
        = Some (Inr [suite_testset ''/t/s.json''],
                cache_set [(''/t/a.yml'', []), (''/t/s.json'', [suite_testset ''/t/s.json''])]
                  (abspath batch_env ''/t'') [suite_testset ''/t/s.json''])"
    by blast
  then have a: "load_testcases batch_env example_defs (Suc (Suc (Suc 0))) (PathOne ''/t'') []
     = Some (Inr [suite_testset ''/t/s.json''],
             [(''/t/a.yml'', []), (''/t/s.json'', [suite_testset ''/t/s.json'']),
              (''/t'', [suite_testset ''/t/s.json''])])"
    by (simp only: batch_folder_parts(10))
  have ne: "\<forall>m. ApiNotFound ''nope not found!'' \<noteq> FileFormatError m" by simp
  from t3 batch_error_parts(1-5) ne
  have "load_testcases_loop batch_env example_defs (Suc 0)
          ([''/t/a.yml''] @ ''/c.yml'' # [''/t/s.json'']) [] []
        = Some (Inl (ApiNotFound ''nope not found!''), [(''/t/a.yml'', [])])"
    by blast
  then have "load_testcases_loop batch_env example_defs (Suc 0)
          (set_iter batch_env [''/t/a.yml'', ''/c.yml'', ''/t/s.json'']) [] []
        = Some (Inl (ApiNotFound ''nope not found!''), [(''/t/a.yml'', [])])"
    by (simp only: batch_error_parts(6))
  with t4
  have b: "load_testcases batch_env example_defs (Suc (Suc 0))
       (PathMany [''/t/a.yml'', ''/c.yml'', ''/t/s.json'']) []
     = Some (Inl (ApiNotFound ''nope not found!''), [(''/t/a.yml'', [])])"
    by (simp only:)
  from a b show ?thesis by blast
qed

subsection \<open>A path that is in the cache\<close>

text \<open>
  A call for a folder of a self-listing set, none of them in the cache, would have to
  load this folder again before it can return: it returns no list, and it writes no
  entry for a folder of the set. And a call writes entries only for its own path and
  for what \<open>folder_lists\<close> reaches from it. So when the files of a folder have been
  loaded, the cache has no entry for the folder.
\<close>

lemma folder_lists_mono:
  assumes "\<And>k v. map_of c k = Some v \<Longrightarrow> map_of c' k = Some v"
  shows "folder_lists e c' \<subseteq> folder_lists e c"
proof
  fix xy assume h: "xy \<in> folder_lists e c'"
  obtain x y where xy: "xy = (x, y)" by (cases xy)
  from h xy have u: "map_of c' x = None" by (simp add: folder_lists_def)
  have "map_of c x = None"
  proof (cases "map_of c x")
    case None then show ?thesis .
  next
    case (Some v)
    from assms[OF this] u show ?thesis by simp
  qed
  with h xy show "xy \<in> folder_lists e c" by (simp add: folder_lists_def)
qed

lemma self_listing_never_returns:
  assumes cl: "self_listing e S"
  shows "load_testcases e dd n parg cache = Some (res, cache') \<Longrightarrow>
           (\<forall>s \<in> S. map_of cache s = None) \<Longrightarrow>
           (\<forall>s \<in> S. map_of cache' s = None)
           \<and> ((case parg of
                  PathOne q \<Rightarrow> abspath e q \<in> S
                | PathMany ps \<Rightarrow> \<exists>f \<in> set (set_iter e ps). abspath e f \<in> S)
                \<longrightarrow> (\<exists>err. res = Inl err))"
    and "load_testcases_loop e dd n paths acc cache = Some (res, cache') \<Longrightarrow>
           (\<forall>s \<in> S. map_of cache s = None) \<Longrightarrow>
           (\<forall>s \<in> S. map_of cache' s = None)
           \<and> ((\<exists>f \<in> set paths. abspath e f \<in> S) \<longrightarrow> (\<exists>err. res = Inl err))"
  using cl
proof (induction e dd n parg cache and e dd n paths acc cache
         arbitrary: res cache' and res cache'
         rule: load_testcases_load_testcases_loop.induct)
  case (1 e dd path cache)
  then show ?case by simp
next
  case (2 e dd n paths cache)
  from "2.prems"(1) have "load_testcases_loop e dd n (set_iter e paths) [] cache = Some (res, cache')"
    by simp
  from "2.IH"[OF this "2.prems"(2,3)] show ?case by simp
next
  case (3 e dd n path cache)
  let ?a = "abspath e path"
  note cl = "3.prems"(3)
  show ?case
  proof (cases "map_of cache ?a")
    case (Some r)
    with "3.prems"(2) have "?a \<notin> S" by auto
    with Some "3.prems"(1,2) show ?thesis by simp
  next
    case None
    show ?thesis
    proof (cases "isdir e ?a")
      case True
      with None "3.prems"(1) obtain r1 c1 where
        inner: "load_testcases e dd n (PathMany (load_folder_files e (PathOne ?a) True)) cache
                = Some (r1, c1)"
        by (auto simp: sbind_def split: option.splits)
      from "3.IH"[OF None True inner "3.prems"(2) cl] have
        u1: "\<forall>s \<in> S. map_of c1 s = None"
        and e1: "(\<exists>f \<in> set (set_iter e (load_folder_files e (PathOne ?a) True)).
                    abspath e f \<in> S) \<longrightarrow> (\<exists>err. r1 = Inl err)"
        by simp_all
      show ?thesis
      proof (cases "?a \<in> S")
        case inS: True
        with cl have "\<exists>f \<in> set (set_iter e (load_folder_files e (PathOne ?a) True)).
                        abspath e f \<in> S"
          unfolding self_listing_def by blast
        with e1 obtain err where r1: "r1 = Inl err" by blast
        with None True inner "3.prems"(1) have "res = Inl err" "cache' = c1"
          by (simp_all add: sbind_def)
        with u1 show ?thesis by simp
      next
        case notS: False
        from None True inner "3.prems"(1) have
          "cache' = c1 \<or> (\<exists>tl. cache' = cache_set c1 ?a tl)"
          by (auto simp: sbind_def split: sum.splits)
        with u1 notS have "\<forall>s \<in> S. map_of cache' s = None"
          by (auto simp: map_of_cache_set)
        with notS show ?thesis by simp
      qed
    next
      case False
      with cl have notS: "?a \<notin> S" unfolding self_listing_def by blast
      from None False "3.prems"(1) have
        "cache' = cache \<or> (\<exists>tl. cache' = cache_set cache ?a tl)"
        by (auto split: if_splits sum.splits)
      with "3.prems"(2) notS have "\<forall>s \<in> S. map_of cache' s = None"
        by (auto simp: map_of_cache_set)
      with notS show ?thesis by simp
    qed
  qed
next
  case (4 e dd n testcases_list cache)
  then show ?case by simp
next
  case (5 e dd n item_path rest testcases_list cache)
  note cl = "5.prems"(3)
  from "5.prems"(1) obtain r c1 where
    first: "load_testcases e dd n (PathOne item_path) cache = Some (r, c1)"
    by (auto simp: sbind_def split: option.splits)
  from "5.IH"(1)[OF first "5.prems"(2) cl] have
    u1: "\<forall>s \<in> S. map_of c1 s = None"
    and e1: "abspath e item_path \<in> S \<longrightarrow> (\<exists>err. r = Inl err)"
    by simp_all
  show ?case
  proof (cases r)
    case (Inl err)
    with first "5.prems"(1) have "res = Inl err" "cache' = c1" by (simp_all add: sbind_def)
    with u1 show ?thesis by simp
  next
    case (Inr tcs)
    with e1 have notS: "abspath e item_path \<notin> S" by auto
    from Inr first "5.prems"(1) have
      rest: "load_testcases_loop e dd n rest
         (if tcs = [] then testcases_list else testcases_list @ tcs) c1 = Some (res, cache')"
      by (simp add: sbind_def)
    from "5.IH"(2)[OF first[unfolded Inr] rest u1 cl] notS show ?thesis by auto
  qed
qed

lemma written_key_is_listed:
  "load_testcases e dd n parg cache = Some (res, cache') \<Longrightarrow>
     map_of cache k = None \<Longrightarrow> map_of cache' k \<noteq> None \<Longrightarrow>
     (case parg of
        PathOne q \<Rightarrow> (abspath e q, k) \<in> (folder_lists e cache)\<^sup>*
      | PathMany ps \<Rightarrow> \<exists>f \<in> set (set_iter e ps). (abspath e f, k) \<in> (folder_lists e cache)\<^sup>*)"
  "load_testcases_loop e dd n paths acc cache = Some (res, cache') \<Longrightarrow>
     map_of cache k = None \<Longrightarrow> map_of cache' k \<noteq> None \<Longrightarrow>
     \<exists>f \<in> set paths. (abspath e f, k) \<in> (folder_lists e cache)\<^sup>*"
proof (induction e dd n parg cache and e dd n paths acc cache
         arbitrary: res cache' and res cache'
         rule: load_testcases_load_testcases_loop.induct)
  case (1 e dd path cache)
  then show ?case by simp
next
  case (2 e dd n paths cache)
  from "2.prems"(1) have "load_testcases_loop e dd n (set_iter e paths) [] cache = Some (res, cache')"
    by simp
  from "2.IH"[OF this "2.prems"(2,3)] show ?case by simp
next
  case (3 e dd n path cache)
  let ?a = "abspath e path"
  show ?case
  proof (cases "k = ?a")
    case True
    then show ?thesis by simp
  next
    case ne: False
    show ?thesis
    proof (cases "map_of cache ?a")
      case (Some r)
      with "3.prems" show ?thesis by simp
    next
      case None
      show ?thesis
      proof (cases "isdir e ?a")
        case True
        with None "3.prems"(1) obtain r1 c1 where
          inner: "load_testcases e dd n (PathMany (load_folder_files e (PathOne ?a) True)) cache
                  = Some (r1, c1)"
          by (auto simp: sbind_def split: option.splits)
        from None True inner "3.prems"(1) have
          "cache' = c1 \<or> (\<exists>tl. cache' = cache_set c1 ?a tl)"
          by (auto simp: sbind_def split: sum.splits)
        with "3.prems"(3) ne have "map_of c1 k \<noteq> None" by (auto simp: map_of_cache_set)
        from "3.IH"[OF None True inner "3.prems"(2) this] obtain f where
          f: "f \<in> set (set_iter e (load_folder_files e (PathOne ?a) True))"
          and r: "(abspath e f, k) \<in> (folder_lists e cache)\<^sup>*"
          by auto
        from None True f have "(?a, abspath e f) \<in> folder_lists e cache"
          unfolding folder_lists_def by blast
        with r have "(?a, k) \<in> (folder_lists e cache)\<^sup>*"
          by (simp add: converse_rtrancl_into_rtrancl)
        then show ?thesis by simp
      next
        case False
        from None False "3.prems"(1) have
          "cache' = cache \<or> (\<exists>tl. cache' = cache_set cache ?a tl)"
          by (auto split: if_splits sum.splits)
        with "3.prems"(2,3) ne show ?thesis by (auto simp: map_of_cache_set)
      qed
    qed
  qed
next
  case (4 e dd n testcases_list cache)
  then show ?case by simp
next
  case (5 e dd n item_path rest testcases_list cache)
  from "5.prems"(1) obtain r c1 where
    first: "load_testcases e dd n (PathOne item_path) cache = Some (r, c1)"
    by (auto simp: sbind_def split: option.splits)
  show ?case
  proof (cases "map_of c1 k")
    case (Some v)
    then have "map_of c1 k \<noteq> None" by simp
    from "5.IH"(1)[OF first "5.prems"(2) this] show ?thesis by simp
  next
    case None
    show ?thesis
    proof (cases r)
      case (Inl err)
      with first "5.prems"(1) have "cache' = c1" by (simp add: sbind_def)
      with None "5.prems"(3) show ?thesis by simp
    next
      case (Inr tcs)
      with first "5.prems"(1) have
        rest: "load_testcases_loop e dd n rest
           (if tcs = [] then testcases_list else testcases_list @ tcs) c1 = Some (res, cache')"
        by (simp add: sbind_def)
      from "5.IH"(2)[OF first[unfolded Inr] rest None "5.prems"(3)] obtain f where
        f: "f \<in> set rest" and r: "(abspath e f, k) \<in> (folder_lists e c1)\<^sup>*"
        by auto
      have "folder_lists e c1 \<subseteq> folder_lists e cache"
        by (rule folder_lists_mono) (rule load_testcases_keeps_entries(1)[OF first])
      from rtrancl_mono[OF this] r have "(abspath e f, k) \<in> (folder_lists e cache)\<^sup>*"
        by blast
      with f show ?thesis by auto
    qed
  qed
qed

lemma folder_key_absent_after_files:
  assumes u: "map_of cache a = None" and d: "isdir e a"
    and inner: "load_testcases e dd n (PathMany (load_folder_files e (PathOne a) True)) cache
                = Some (res, cache')"
  shows "map_of cache' a = None"
proof (rule ccontr)
  assume w: "map_of cache' a \<noteq> None"
  let ?R = "folder_lists e cache"
  let ?S = "{x. (x, a) \<in> ?R\<^sup>+}"
  from written_key_is_listed(1)[OF inner u w] obtain f where
    f: "f \<in> set (set_iter e (load_folder_files e (PathOne a) True))"
    and r: "(abspath e f, a) \<in> ?R\<^sup>*"
    by auto
  from u d f have "(a, abspath e f) \<in> ?R" unfolding folder_lists_def by blast
  with r have aS: "a \<in> ?S" by (simp add: rtrancl_into_trancl2)
  have cl: "self_listing e ?S"
    unfolding self_listing_def
  proof
    fix s assume "s \<in> ?S"
    then have "(s, a) \<in> ?R\<^sup>+" by simp
    then obtain y where sy: "(s, y) \<in> ?R" and ya: "(y, a) \<in> ?R\<^sup>*"
      by (blast dest: tranclD)
    from ya aS have "y \<in> ?S" by (auto simp: rtrancl_eq_or_trancl)
    with sy show "isdir e s \<and> (\<exists>f \<in> set (set_iter e (load_folder_files e (PathOne s) True)).
                                  abspath e f \<in> ?S)"
      unfolding folder_lists_def by blast
  qed
  have un: "\<forall>s \<in> ?S. map_of cache s = None"
  proof
    fix s assume "s \<in> ?S"
    then have "(s, a) \<in> ?R\<^sup>+" by simp
    then obtain y where "(s, y) \<in> ?R" by (blast dest: tranclD)
    then show "map_of cache s = None" unfolding folder_lists_def by blast
  qed
  from self_listing_never_returns(1)[OF cl inner un] aS have "map_of cache' a = None" by blast
  with w show False by simp
qed

text \<open>
  Claim C9. A path whose absolute path is in the cache gives the cached list and leaves
  the cache as it is, whatever the file system and the definitions are: no file is
  looked at. A call for one path that returns a list has stored this list under the
  absolute path, so that every call after it for a path with the same absolute path
  returns this list and leaves the cache as it is, also after any other call of
  \<^verbatim>\<open>load_testcases\<close>, since every call, whether it returns or raises, leaves each entry
  that the cache has at its start as it was. Nor does a call replace an entry written
  while it runs: a file is stored right after the look-up that did not find it, and
  when the files of a folder have been loaded the cache has no entry for the folder, so
  that line 406 always writes a new entry.
\<close>

theorem cached_result_returned_and_kept:
  "(map_of cache (abspath e path) = Some r
      \<longrightarrow> load_testcases e dd (Suc n) (PathOne path) cache = Some (Inr r, cache))
   \<and> (load_testcases e dd k (PathOne path) cache = Some (Inr r, cache')
      \<longrightarrow> map_of cache' (abspath e path) = Some r
        \<and> (abspath e' path' = abspath e path
           \<longrightarrow> load_testcases e' dd' (Suc n) (PathOne path') cache' = Some (Inr r, cache')))
   \<and> (load_testcases e dd k (PathOne path) cache = Some (Inr r, cache')
      \<and> load_testcases e'' dd'' k'' parg cache' = Some (res, cache'')
      \<and> abspath e' path' = abspath e path
      \<longrightarrow> load_testcases e' dd' (Suc n) (PathOne path') cache'' = Some (Inr r, cache''))
   \<and> (load_testcases e dd k parg cache = Some (res, cache') \<and> map_of cache key = Some v
      \<longrightarrow> map_of cache' key = Some v)
   \<and> (load_testcases_loop e dd k paths acc cache = Some (res, cache')
      \<and> map_of cache key = Some v
      \<longrightarrow> map_of cache' key = Some v)
   \<and> (map_of cache (abspath e path) = None \<and> isdir e (abspath e path)
      \<and> load_testcases e dd k
          (PathMany (load_folder_files e (PathOne (abspath e path)) True)) cache
          = Some (res, cache')
      \<longrightarrow> map_of cache' (abspath e path) = None)"
proof -
  have a: "load_testcases e dd (Suc n) (PathOne path) cache = Some (Inr r, cache)"
    if "map_of cache (abspath e path) = Some r"
    using that by (rule load_testcases_hit)
  have b: "map_of cache' (abspath e path) = Some r
        \<and> (abspath e' path' = abspath e path
           \<longrightarrow> load_testcases e' dd' (Suc n) (PathOne path') cache' = Some (Inr r, cache'))"
    if h: "load_testcases e dd k (PathOne path) cache = Some (Inr r, cache')"
  proof -
    note s = load_testcases_stored[OF h]
    have "load_testcases e' dd' (Suc n) (PathOne path') cache' = Some (Inr r, cache')"
      if "abspath e' path' = abspath e path"
      using s that by (simp only: load_testcases_hit)
    with s show ?thesis by blast
  qed
  have c: "load_testcases e' dd' (Suc n) (PathOne path') cache'' = Some (Inr r, cache'')"
    if h: "load_testcases e dd k (PathOne path) cache = Some (Inr r, cache')"
      "load_testcases e'' dd'' k'' parg cache' = Some (res, cache'')"
      "abspath e' path' = abspath e path"
  proof -
    note s = load_testcases_stored[OF h(1)]
    from load_testcases_keeps_entries(1)[OF h(2) s]
    have "map_of cache'' (abspath e' path') = Some r" by (simp only: h(3))
    then show ?thesis by (rule load_testcases_hit)
  qed
  have d: "map_of cache' key = Some v"
    if "load_testcases e dd k parg cache = Some (res, cache')" "map_of cache key = Some v"
    using that by (rule load_testcases_keeps_entries(1))
  have f: "map_of cache' key = Some v"
    if "load_testcases_loop e dd k paths acc cache = Some (res, cache')"
       "map_of cache key = Some v"
    using that by (rule load_testcases_keeps_entries(2))
  have g: "map_of cache' (abspath e path) = None"
    if "map_of cache (abspath e path) = None" "isdir e (abspath e path)"
       "load_testcases e dd k
          (PathMany (load_folder_files e (PathOne (abspath e path)) True)) cache
          = Some (res, cache')"
    using that by (rule folder_key_absent_after_files)
  show ?thesis using a b c d f g by blast
qed

text \<open>
  The file \<^verbatim>\<open>/s.json\<close> is loaded once. After that the relative path \<^verbatim>\<open>s.json\<close> gives the
  same list in a file system without any file, and so it does after the folder \<^verbatim>\<open>/t\<close>
  has been loaded in between. And when the files of \<^verbatim>\<open>/t\<close> have been loaded, the cache has
  no entry for \<^verbatim>\<open>/t\<close>.
\<close>

lemma cache_example_parts:
  "load_testcases suite_file_env example_defs 1 (PathOne ''/s.json'') []
     = Some (Inr [suite_testset ''/s.json''], [(''/s.json'', [suite_testset ''/s.json''])])"
  "abspath empty_env ''s.json'' = abspath suite_file_env ''/s.json''"
  "load_testcases batch_env example_defs 3 (PathOne ''/t'')
     [(''/s.json'', [suite_testset ''/s.json''])]
     = Some (Inr [suite_testset ''/t/s.json''],
             [(''/s.json'', [suite_testset ''/s.json'']), (''/t/a.yml'', []),
              (''/t/s.json'', [suite_testset ''/t/s.json'']),
              (''/t'', [suite_testset ''/t/s.json''])])"
  "map_of [] (abspath batch_env ''/t'') = None"
  "isdir batch_env (abspath batch_env ''/t'')"
  "load_testcases batch_env example_defs 2
     (PathMany (load_folder_files batch_env (PathOne (abspath batch_env ''/t'')) True)) []
     = Some (Inr [suite_testset ''/t/s.json''],
             [(''/t/a.yml'', []), (''/t/s.json'', [suite_testset ''/t/s.json''])])"
  by code_simp+

theorem cached_result_returned_and_kept_witness:
  "load_testcases empty_env example_defs (Suc 0) (PathOne ''s.json'')
     [(''/s.json'', [suite_testset ''/s.json''])]
     = Some (Inr [suite_testset ''/s.json''], [(''/s.json'', [suite_testset ''/s.json''])])
   \<and> load_testcases empty_env example_defs (Suc 0) (PathOne ''s.json'')
       [(''/s.json'', [suite_testset ''/s.json'']), (''/t/a.yml'', []),
        (''/t/s.json'', [suite_testset ''/t/s.json'']),
        (''/t'', [suite_testset ''/t/s.json''])]
     = Some (Inr [suite_testset ''/s.json''],
             [(''/s.json'', [suite_testset ''/s.json'']), (''/t/a.yml'', []),
              (''/t/s.json'', [suite_testset ''/t/s.json'']),
              (''/t'', [suite_testset ''/t/s.json''])])
   \<and> map_of [(''/t/a.yml'', []), (''/t/s.json'', [suite_testset ''/t/s.json''])]
       (abspath batch_env ''/t'') = None"
proof -
  note t = cached_result_returned_and_kept
      [where e = suite_file_env and dd = example_defs and k = 1 and path = "''/s.json''"
         and cache = "[]" and r = "[suite_testset ''/s.json'']"
         and cache' = "[(''/s.json'', [suite_testset ''/s.json''])]"
         and e' = empty_env and dd' = example_defs and path' = "''s.json''" and n = 0
         and e'' = batch_env and dd'' = example_defs and k'' = 3 and parg = "PathOne ''/t''"
         and res = "Inr [suite_testset ''/t/s.json'']"
         and cache'' = "[(''/s.json'', [suite_testset ''/s.json'']), (''/t/a.yml'', []),
                         (''/t/s.json'', [suite_testset ''/t/s.json'']),
                         (''/t'', [suite_testset ''/t/s.json''])]"]
  from t cache_example_parts(1,2)
  have a: "load_testcases empty_env example_defs (Suc 0) (PathOne ''s.json'')
     [(''/s.json'', [suite_testset ''/s.json''])]
     = Some (Inr [suite_testset ''/s.json''], [(''/s.json'', [suite_testset ''/s.json''])])"
    by blast
  from t cache_example_parts(1,2,3)
  have b: "load_testcases empty_env example_defs (Suc 0) (PathOne ''s.json'')
       [(''/s.json'', [suite_testset ''/s.json'']), (''/t/a.yml'', []),
        (''/t/s.json'', [suite_testset ''/t/s.json'']),
        (''/t'', [suite_testset ''/t/s.json''])]
     = Some (Inr [suite_testset ''/s.json''],
             [(''/s.json'', [suite_testset ''/s.json'']), (''/t/a.yml'', []),
              (''/t/s.json'', [suite_testset ''/t/s.json'']),
              (''/t'', [suite_testset ''/t/s.json''])])"
    by blast
  note u = cached_result_returned_and_kept
      [where e = batch_env and dd = example_defs and k = 2 and path = "''/t''"
         and cache = "[]" and res = "Inr [suite_testset ''/t/s.json'']"
         and cache' = "[(''/t/a.yml'', []), (''/t/s.json'', [suite_testset ''/t/s.json''])]"]
  from u cache_example_parts(4,5,6)
  have c: "map_of [(''/t/a.yml'', []), (''/t/s.json'', [suite_testset ''/t/s.json''])]
       (abspath batch_env ''/t'') = None"
    by blast
  from a b c show ?thesis by blast
qed

end
